theory Spec2Isabelle
  imports Main "HOL-Library.Multiset"
begin

section \<open>The pod-event reconciliation engine of the Citus manager\<close>

text \<open>
  A shallow embedding of \<^verbatim>\<open>src/manager/manager.py\<close>. The class \<^verbatim>\<open>Manager\<close> becomes the
  record \<open>manager\<close>, threaded through every method. What the methods do to the outside
  (the pod-status API, \<^verbatim>\<open>time.sleep\<close> of the retry decorator, \<^verbatim>\<open>DBHandler.execute_query\<close>,
  the four provisioning calls of \<^verbatim>\<open>ConfigMonitor\<close>) is appended to the field \<open>trace\<close>, in
  the order of the calls. The collaborators \<^verbatim>\<open>env_conf\<close>, \<^verbatim>\<open>db\<close> and \<^verbatim>\<open>config_monitor\<close> are
  imported modules whose code is not part of the file: the configuration and the host-name
  resolution are parameters, and a call to \<^verbatim>\<open>execute_query\<close> or to a provisioning method is
  recorded and taken to return normally.
\<close>

subsection \<open>Configuration, pods and events\<close>

text \<open>The object returned by \<^verbatim>\<open>parse_env_vars()\<close>, with the attributes the manager reads.\<close>

record env_conf =
  namespace :: string
  master_label :: string
  coordinator_label :: string
  worker_label :: string
  master_service :: string
  coordinator_service :: string
  worker_service :: string
  minimum_workers :: int
  pg_port :: int

text \<open>
  A \<^verbatim>\<open>V1Pod\<close> as far as the manager reads it: \<^verbatim>\<open>pod.metadata.labels\<close> (possibly \<^verbatim>\<open>None\<close>)
  and \<^verbatim>\<open>pod.metadata.name\<close>. A watch event is the dict \<^verbatim>\<open>{"type": ..., "object": ...}\<close>.
\<close>

record v1pod =
  labels :: "(string \<times> string) list option"
  name :: string

record event =
  type :: string
  object :: v1pod

subsection \<open>Exceptions and the pod-status API\<close>

text \<open>
  The exceptions the body of \<^verbatim>\<open>request_pod_readiness\<close> can raise: the client's
  \<^verbatim>\<open>ApiException\<close> (with its HTTP status), the \<^verbatim>\<open>AssertionError\<close> of \<^verbatim>\<open>assert all(readiness)\<close>,
  the \<^verbatim>\<open>TypeError\<close> of iterating \<^verbatim>\<open>container_statuses\<close> when it is \<^verbatim>\<open>None\<close>, and any other
  exception of the transport (the server cannot be reached).
\<close>

datatype exn = ApiException nat | AssertionError | TypeError | ConnectionError

text \<open>
  One call of \<^verbatim>\<open>read_namespaced_pod_status\<close> either raises, or returns a pod whose
  \<^verbatim>\<open>status.container_statuses\<close> is \<^verbatim>\<open>None\<close> or the list of the containers' \<^verbatim>\<open>ready\<close> flags.
\<close>

datatype api_response = Raises exn | Status "bool list option"

text \<open>
  The environment of one run: the configuration, the answer of the \<open>n\<close>-th call of the
  pod-status API (counted from the start of the process) for a pod name and a namespace,
  and \<^verbatim>\<open>DBHandler.get_host_name\<close>.
\<close>

record env =
  conf :: env_conf
  read_namespaced_pod_status :: "nat \<Rightarrow> string \<Rightarrow> string \<Rightarrow> api_response"
  get_host_name :: "string \<Rightarrow> string \<Rightarrow> string"

subsection \<open>The manager's state and its calls to the outside\<close>

text \<open>The dict \<^verbatim>\<open>{"host": ..., "port": ...}\<close> handed to \<^verbatim>\<open>execute_query\<close>.\<close>

record query_params =
  host :: string
  port :: int

datatype effect =
    ReadPodStatus string string
  | Sleep nat
  | ExecuteQuery string string string query_params
  | ProvisionMaster string
  | ProvisionCoordinator string
  | ProvisionWorker string
  | ProvisionAllNodes

text \<open>
  The three Python sets are lists without repetition; a \<^verbatim>\<open>for\<close> loop over a set visits the
  list from its head. Python leaves the order in which a set is iterated open; the list
  stands for that order, and \<open>set_add\<close> below puts a new element last. So a statement carries
  over to the program when it does not depend on where \<open>set_add\<close> puts the element: when it
  is about the list of a state as it is, or about the elements and their number only.
  \<open>polls\<close> counts the calls of the pod-status API made so far.
\<close>

record manager =
  init_provision :: bool
  citus_master_nodes :: "string list"
  citus_worker_nodes :: "string list"
  citus_coordinator_nodes :: "string list"
  polls :: nat
  trace :: "effect list"

text \<open>\<^verbatim>\<open>Manager.__init__\<close>: the flag is unset and the three sets are empty.\<close>

definition init :: manager where
  "init = \<lparr>init_provision = False, citus_master_nodes = [], citus_worker_nodes = [],
           citus_coordinator_nodes = [], polls = 0, trace = []\<rparr>"

text \<open>\<^verbatim>\<open>set.add\<close> and \<^verbatim>\<open>set.discard\<close>.\<close>

definition set_add :: "string \<Rightarrow> string list \<Rightarrow> string list" where
  "set_add x xs = (if x \<in> set xs then xs else xs @ [x])"

definition discard :: "string \<Rightarrow> string list \<Rightarrow> string list" where
  "discard x xs = removeAll x xs"

definition emit :: "effect \<Rightarrow> manager \<Rightarrow> manager" where
  "emit c s = s\<lparr>trace := trace s @ [c]\<rparr>"

subsection \<open>The readiness gate\<close>

text \<open>
  The body of \<^verbatim>\<open>request_pod_readiness\<close> on one answer of the API: \<open>None\<close> when it returns,
  the exception when it raises.
\<close>

fun attempt :: "api_response \<Rightarrow> exn option" where
  "attempt (Raises x) = Some x"
| "attempt (Status None) = Some TypeError"
| "attempt (Status (Some readiness)) =
     (if list_all (\<lambda>ready. ready) readiness then None else Some AssertionError)"

text \<open>\<^verbatim>\<open>retry_on_exception=lambda x: not isinstance(x, client.rest.ApiException)\<close>.\<close>

fun retry_on_exception :: "exn \<Rightarrow> bool" where
  "retry_on_exception (ApiException status) = False"
| "retry_on_exception x = True"

text \<open>
  The function decorated with \<^verbatim>\<open>retrying.retry(wait_fixed=5000, retry_on_exception=...)\<close>:
  the decorator calls the body; a normal return is returned; an exception that
  \<open>retry_on_exception\<close> rejects is raised again; on any other exception it sleeps 5000
  milliseconds and calls the body again, without a bound on the attempts. The loop need
  not end, so the result is an option: \<open>None\<close> when it never returns.
  \<open>api_answer\<close> is what the call \<^verbatim>\<open>api.read_namespaced_pod_status(pod_name, namespace)\<close>
  answers in the state \<open>s\<close>, and \<open>polled\<close> is the state after the call.
\<close>

definition api_answer :: "env \<Rightarrow> string \<Rightarrow> manager \<Rightarrow> api_response" where
  "api_answer e pod_name s =
     read_namespaced_pod_status e (polls s) pod_name (namespace (conf e))"

definition polled :: "env \<Rightarrow> string \<Rightarrow> manager \<Rightarrow> manager" where
  "polled e pod_name s =
     emit (ReadPodStatus pod_name (namespace (conf e))) (s\<lparr>polls := Suc (polls s)\<rparr>)"

partial_function (option) request_pod_readiness ::
  "env \<Rightarrow> string \<Rightarrow> manager \<Rightarrow> (exn option \<times> manager) option" where
  "request_pod_readiness e pod_name s =
     (case attempt (api_answer e pod_name s) of
        None \<Rightarrow> Some (None, polled e pod_name s)
      | Some x \<Rightarrow>
          if retry_on_exception x
          then request_pod_readiness e pod_name (emit (Sleep 5000) (polled e pod_name s))
          else Some (Some x, polled e pod_name s))"

declare request_pod_readiness.simps [code]

datatype outcome = Returned | ReadinessError

text \<open>
  \<^verbatim>\<open>check_pod_readiness\<close>: the only exception that leaves the retry loop is an
  \<^verbatim>\<open>ApiException\<close> (lemma \<open>request_pod_readiness_raises\<close> below), which the \<^verbatim>\<open>except\<close> clause
  turns into a \<^verbatim>\<open>ReadinessError\<close>.
\<close>

definition check_pod_readiness :: "env \<Rightarrow> string \<Rightarrow> manager \<Rightarrow> (outcome \<times> manager) option" where
  "check_pod_readiness e pod_name s =
     (case request_pod_readiness e pod_name s of
        None \<Rightarrow> None
      | Some (None, s') \<Rightarrow> Some (Returned, s')
      | Some (Some x, s') \<Rightarrow> Some (ReadinessError, s'))"

subsection \<open>Queries\<close>

definition add_node_query :: string where
  "add_node_query = ''SELECT master_add_node(%(host)s, %(port)s)''"

definition set_coordinator_query :: string where
  "set_coordinator_query = ''SELECT citus_set_coordinator_host(%(host)s)''"

definition delete_placements_query :: string where
  "delete_placements_query =
     ''DELETE FROM pg_dist_shard_placement WHERE nodename=%(host)s AND nodeport=%(port)s;''"

definition remove_node_query :: string where
  "remove_node_query = ''SELECT master_remove_node(%(host)s, %(port)s)''"

text \<open>The two statements of \<^verbatim>\<open>remove_worker\<close>, as the triple-quoted string has them: a
  newline and twelve spaces between them.\<close>

definition remove_worker_query :: string where
  "remove_worker_query =
     delete_placements_query @ [CHR 0x0A] @ replicate 12 CHR '' '' @ remove_node_query"

definition execute_query :: "string \<Rightarrow> string \<Rightarrow> string \<Rightarrow> query_params \<Rightarrow> manager \<Rightarrow> manager" where
  "execute_query target service_name query params s =
     emit (ExecuteQuery target service_name query params) s"

text \<open>The \<^verbatim>\<open>query_params\<close> of \<^verbatim>\<open>exec_on_masters\<close> and \<^verbatim>\<open>exec_on_coordinators\<close>: the worker's
  host name resolved in the worker service, and the configured port.\<close>

definition worker_params :: "env \<Rightarrow> string \<Rightarrow> query_params" where
  "worker_params e worker_name =
     \<lparr>host = get_host_name e worker_name (worker_service (conf e)), port = pg_port (conf e)\<rparr>"

definition exec_on_masters :: "env \<Rightarrow> string \<Rightarrow> string \<Rightarrow> manager \<Rightarrow> manager" where
  "exec_on_masters e query worker_name s =
     fold (\<lambda>master. execute_query master (master_service (conf e)) query
             (worker_params e worker_name))
       (citus_master_nodes s) s"

definition exec_on_coordinators :: "env \<Rightarrow> string \<Rightarrow> string \<Rightarrow> manager \<Rightarrow> manager" where
  "exec_on_coordinators e query worker_name s =
     fold (\<lambda>coordinator. execute_query coordinator (coordinator_service (conf e)) query
             (worker_params e worker_name))
       (citus_coordinator_nodes s) s"

definition set_coordinator_master :: "env \<Rightarrow> string \<Rightarrow> manager \<Rightarrow> manager" where
  "set_coordinator_master e pod_name s =
     execute_query pod_name (master_service (conf e)) set_coordinator_query
       \<lparr>host = get_host_name e pod_name (master_service (conf e)), port = pg_port (conf e)\<rparr> s"

definition set_coordinator_coordinator :: "env \<Rightarrow> string \<Rightarrow> manager \<Rightarrow> manager" where
  "set_coordinator_coordinator e pod_name s =
     execute_query pod_name (coordinator_service (conf e)) set_coordinator_query
       \<lparr>host = get_host_name e pod_name (coordinator_service (conf e)), port = pg_port (conf e)\<rparr> s"

subsection \<open>The handlers\<close>

definition add_worker :: "env \<Rightarrow> string \<Rightarrow> manager \<Rightarrow> (outcome \<times> manager) option" where
  "add_worker e pod_name s =
     (case check_pod_readiness e pod_name s of
        None \<Rightarrow> None
      | Some (ReadinessError, s1) \<Rightarrow> Some (ReadinessError, s1)
      | Some (Returned, s1) \<Rightarrow>
          (let s2 = s1\<lparr>citus_worker_nodes := set_add pod_name (citus_worker_nodes s1)\<rparr>;
               s3 = exec_on_masters e add_node_query pod_name s2;
               s4 = exec_on_coordinators e add_node_query pod_name s3
           in Some (Returned,
                if minimum_workers (conf e) \<le> int (length (citus_worker_nodes s4))
                then if \<not> init_provision s4
                     then (emit ProvisionAllNodes s4)\<lparr>init_provision := True\<rparr>
                     else emit (ProvisionWorker pod_name) s4
                else s4)))"

text \<open>The loop \<^verbatim>\<open>for worker_pod in self.citus_worker_nodes: self.add_worker(worker_pod)\<close>;
  an exception of one call ends it.\<close>

fun replay :: "env \<Rightarrow> string list \<Rightarrow> manager \<Rightarrow> (outcome \<times> manager) option" where
  "replay e [] s = Some (Returned, s)"
| "replay e (worker_pod # rest) s =
     (case add_worker e worker_pod s of
        None \<Rightarrow> None
      | Some (ReadinessError, s') \<Rightarrow> Some (ReadinessError, s')
      | Some (Returned, s') \<Rightarrow> replay e rest s')"

definition add_master :: "env \<Rightarrow> string \<Rightarrow> manager \<Rightarrow> (outcome \<times> manager) option" where
  "add_master e pod_name s =
     (case check_pod_readiness e pod_name s of
        None \<Rightarrow> None
      | Some (ReadinessError, s1) \<Rightarrow> Some (ReadinessError, s1)
      | Some (Returned, s1) \<Rightarrow>
          (let s2 = s1\<lparr>citus_master_nodes := set_add pod_name (citus_master_nodes s1)\<rparr>;
               s3 = set_coordinator_master e pod_name s2;
               s4 = (if minimum_workers (conf e) \<le> int (length (citus_worker_nodes s3))
                     then emit (ProvisionMaster pod_name) s3 else s3)
           in replay e (citus_worker_nodes s4) s4))"

definition remove_master :: "string \<Rightarrow> manager \<Rightarrow> manager" where
  "remove_master pod_name s = s\<lparr>citus_master_nodes := discard pod_name (citus_master_nodes s)\<rparr>"

definition add_coordinator :: "env \<Rightarrow> string \<Rightarrow> manager \<Rightarrow> (outcome \<times> manager) option" where
  "add_coordinator e pod_name s =
     (case check_pod_readiness e pod_name s of
        None \<Rightarrow> None
      | Some (ReadinessError, s1) \<Rightarrow> Some (ReadinessError, s1)
      | Some (Returned, s1) \<Rightarrow>
          (let s2 = s1\<lparr>citus_coordinator_nodes := set_add pod_name (citus_coordinator_nodes s1)\<rparr>;
               s3 = set_coordinator_coordinator e pod_name s2;
               s4 = (if minimum_workers (conf e) \<le> int (length (citus_worker_nodes s3))
                     then emit (ProvisionCoordinator pod_name) s3 else s3)
           in replay e (citus_worker_nodes s4) s4))"

definition remove_coordinator :: "string \<Rightarrow> manager \<Rightarrow> manager" where
  "remove_coordinator pod_name s =
     s\<lparr>citus_coordinator_nodes := discard pod_name (citus_coordinator_nodes s)\<rparr>"

definition remove_worker :: "env \<Rightarrow> string \<Rightarrow> manager \<Rightarrow> manager" where
  "remove_worker e worker_name s =
     exec_on_masters e remove_worker_query worker_name
       (s\<lparr>citus_worker_nodes := discard worker_name (citus_worker_nodes s)\<rparr>)"

subsection \<open>The dispatcher\<close>

datatype handler =
  Add_master | Add_coordinator | Add_worker | Remove_master | Remove_coordinator | Remove_worker

text \<open>The dict of dicts \<^verbatim>\<open>self.pod_interactions\<close>. In a dict display a later entry with an
  equal key replaces an earlier one, as a later update of a map does.\<close>

definition pod_interactions :: "env_conf \<Rightarrow> string \<rightharpoonup> (string \<rightharpoonup> handler)" where
  "pod_interactions c =
     [''ADDED'' \<mapsto>
        [master_label c \<mapsto> Add_master, coordinator_label c \<mapsto> Add_coordinator,
         worker_label c \<mapsto> Add_worker],
      ''DELETED'' \<mapsto>
        [master_label c \<mapsto> Remove_master, coordinator_label c \<mapsto> Remove_coordinator,
         worker_label c \<mapsto> Remove_worker]]"

fun call :: "env \<Rightarrow> handler \<Rightarrow> string \<Rightarrow> manager \<Rightarrow> (outcome \<times> manager) option" where
  "call e Add_master pod_name s = add_master e pod_name s"
| "call e Add_coordinator pod_name s = add_coordinator e pod_name s"
| "call e Add_worker pod_name s = add_worker e pod_name s"
| "call e Remove_master pod_name s = Some (Returned, remove_master pod_name s)"
| "call e Remove_coordinator pod_name s = Some (Returned, remove_coordinator pod_name s)"
| "call e Remove_worker pod_name s = Some (Returned, remove_worker e pod_name s)"

definition get_citus_type :: "v1pod \<Rightarrow> string" where
  "get_citus_type pod =
     (case labels pod of
        None \<Rightarrow> []
      | Some ls \<Rightarrow> if ls = [] then [] else (case map_of ls ''citusType'' of None \<Rightarrow> [] | Some v \<Rightarrow> v))"

definition parse_event :: "event \<Rightarrow> string \<times> string \<times> string" where
  "parse_event ev = (get_citus_type (object ev), name (object ev), type ev)"

text \<open>The body of the loop of \<^verbatim>\<open>run\<close> for one event: a \<^verbatim>\<open>ReadinessError\<close> of the handler is
  caught and logged, and the loop goes on with the state the handler left.\<close>

definition dispatch :: "env \<Rightarrow> event \<Rightarrow> manager \<Rightarrow> manager option" where
  "dispatch e ev s =
     (case parse_event ev of (citus_type, pod_name, event_type) \<Rightarrow>
        if citus_type = [] \<or> pod_interactions (conf e) event_type = None then Some s
        else (case the (pod_interactions (conf e) event_type) citus_type of
                None \<Rightarrow> Some s
              | Some h \<Rightarrow>
                  (case call e h pod_name s of
                     None \<Rightarrow> None
                   | Some (r, s') \<Rightarrow> Some s')))"

text \<open>\<^verbatim>\<open>run\<close> on the events the watch delivers, from the state \<open>s\<close>: \<open>None\<close> when a readiness
  gate never returns.\<close>

fun run :: "env \<Rightarrow> event list \<Rightarrow> manager \<Rightarrow> manager option" where
  "run e [] s = Some s"
| "run e (ev # evs) s = (case dispatch e ev s of None \<Rightarrow> None | Some s' \<Rightarrow> run e evs s')"

subsection \<open>Observations on states and traces\<close>

text \<open>The calls of the pod-status API and the sleeps between them.\<close>

fun is_poll :: "effect \<Rightarrow> bool" where
  "is_poll (ReadPodStatus p n) = True"
| "is_poll (Sleep d) = True"
| "is_poll c = False"

text \<open>What a readiness gate may change: it polls, and it leaves the flag and the three sets alone.\<close>

definition gate_frame :: "manager \<Rightarrow> manager \<Rightarrow> bool" where
  "gate_frame s s' \<longleftrightarrow>
     init_provision s' = init_provision s \<and>
     citus_master_nodes s' = citus_master_nodes s \<and>
     citus_worker_nodes s' = citus_worker_nodes s \<and>
     citus_coordinator_nodes s' = citus_coordinator_nodes s \<and>
     polls s < polls s' \<and>
     (\<exists>new. trace s' = trace s @ new \<and> list_all is_poll new)"

definition retryable :: "api_response \<Rightarrow> bool" where
  "retryable r = (case attempt r of None \<Rightarrow> False | Some x \<Rightarrow> retry_on_exception x)"

text \<open>The effects a state \<open>s'\<close> has recorded beyond those of an earlier state \<open>s\<close>.\<close>

definition effects_since :: "manager \<Rightarrow> manager \<Rightarrow> effect list" where
  "effects_since s s' = drop (length (trace s)) (trace s')"

fun is_query :: "effect \<Rightarrow> bool" where
  "is_query (ExecuteQuery target service_name query params) = True"
| "is_query c = False"

fun is_add_node :: "effect \<Rightarrow> bool" where
  "is_add_node (ExecuteQuery target service_name query params) = (query = add_node_query)"
| "is_add_node c = False"

fun is_provision :: "effect \<Rightarrow> bool" where
  "is_provision (ProvisionMaster p) = True"
| "is_provision (ProvisionCoordinator p) = True"
| "is_provision (ProvisionWorker p) = True"
| "is_provision ProvisionAllNodes = True"
| "is_provision c = False"

text \<open>The test \<^verbatim>\<open>len(self.citus_worker_nodes) >= self.conf.minimum_workers\<close>.\<close>

definition reached :: "env \<Rightarrow> manager \<Rightarrow> bool" where
  "reached e s \<longleftrightarrow> minimum_workers (conf e) \<le> int (length (citus_worker_nodes s))"

text \<open>The add-node queries one call of \<^verbatim>\<open>add_worker\<close> issues for the worker \<open>w\<close>: one for each
  master, then one for each coordinator.\<close>

definition add_node_queries :: "env \<Rightarrow> string list \<Rightarrow> string list \<Rightarrow> string \<Rightarrow> effect list" where
  "add_node_queries e masters coordinators w =
     map (\<lambda>master. ExecuteQuery master (master_service (conf e)) add_node_query (worker_params e w))
       masters @
     map (\<lambda>coordinator.
            ExecuteQuery coordinator (coordinator_service (conf e)) add_node_query (worker_params e w))
       coordinators"

text \<open>A watch event of kind \<open>t\<close> for the pod \<open>n\<close> whose label \<^verbatim>\<open>citusType\<close> is \<open>role\<close>.\<close>

definition pod_event :: "string \<Rightarrow> string \<Rightarrow> string \<Rightarrow> event" where
  "pod_event t role n = \<lparr>type = t, object = \<lparr>labels = Some [(''citusType'', role)], name = n\<rparr>\<rparr>"

text \<open>The provisioning call at the end of \<^verbatim>\<open>add_worker\<close>, in the state \<open>s\<close> that holds the worker.\<close>

definition provisioning :: "env \<Rightarrow> string \<Rightarrow> manager \<Rightarrow> effect list" where
  "provisioning e w s =
     (if reached e s then [if init_provision s then ProvisionWorker w else ProvisionAllNodes] else [])"

text \<open>The invariant of the flag: once a non-empty set of workers has reached the threshold,
  the flag is set.\<close>

definition flag_inv :: "env \<Rightarrow> manager \<Rightarrow> bool" where
  "flag_inv e s \<longleftrightarrow> (citus_worker_nodes s \<noteq> [] \<and> reached e s \<longrightarrow> init_provision s)"

text \<open>The state in which \<^verbatim>\<open>add_master\<close> starts its loop over the workers, from the state \<open>s1\<close>
  its gate left; likewise for \<^verbatim>\<open>add_coordinator\<close>.\<close>

definition master_joined :: "env \<Rightarrow> string \<Rightarrow> manager \<Rightarrow> manager" where
  "master_joined e m s1 =
     s1\<lparr>citus_master_nodes := set_add m (citus_master_nodes s1),
        trace := trace s1 @
          ExecuteQuery m (master_service (conf e)) set_coordinator_query
            \<lparr>host = get_host_name e m (master_service (conf e)), port = pg_port (conf e)\<rparr> #
          (if reached e s1 then [ProvisionMaster m] else [])\<rparr>"

definition coordinator_joined :: "env \<Rightarrow> string \<Rightarrow> manager \<Rightarrow> manager" where
  "coordinator_joined e c s1 =
     s1\<lparr>citus_coordinator_nodes := set_add c (citus_coordinator_nodes s1),
        trace := trace s1 @
          ExecuteQuery c (coordinator_service (conf e)) set_coordinator_query
            \<lparr>host = get_host_name e c (coordinator_service (conf e)), port = pg_port (conf e)\<rparr> #
          (if reached e s1 then [ProvisionCoordinator c] else [])\<rparr>"


text \<open>The handler the loop of \<^verbatim>\<open>run\<close> finds for an event, if any.\<close>

definition handler_of :: "env \<Rightarrow> event \<Rightarrow> handler option" where
  "handler_of e ev =
     (if get_citus_type (object ev) = [] then None
      else case pod_interactions (conf e) (type ev) of
             None \<Rightarrow> None
           | Some handlers \<Rightarrow> handlers (get_citus_type (object ev)))"


subsection \<open>Example environments\<close>

definition example_conf :: env_conf where
  "example_conf = \<lparr>namespace = ''citus'', master_label = ''master'',
     coordinator_label = ''coordinator'', worker_label = ''worker'',
     master_service = ''pg-master'', coordinator_service = ''pg-coordinator'',
     worker_service = ''pg-worker'', minimum_workers = 2, pg_port = 5432\<rparr>"

definition host_of :: "string \<Rightarrow> string \<Rightarrow> string" where
  "host_of pod_name service_name = pod_name @ ''.'' @ service_name"

text \<open>Every pod is ready at every poll.\<close>
definition env_ready :: env where
  "env_ready = \<lparr>conf = example_conf,
     read_namespaced_pod_status = (\<lambda>n p ns. Status (Some [True, True])),
     get_host_name = host_of\<rparr>"

text \<open>The first poll finds one container not ready, the later ones find all ready.\<close>
definition env_late :: env where
  "env_late = \<lparr>conf = example_conf,
     read_namespaced_pod_status = (\<lambda>n p ns. if n = 0 then Status (Some [True, False]) else Status (Some [True, True])),
     get_host_name = host_of\<rparr>"

text \<open>The API answers every call with HTTP 500.\<close>
definition env_500 :: env where
  "env_500 = \<lparr>conf = example_conf,
     read_namespaced_pod_status = (\<lambda>n p ns. Raises (ApiException 500)),
     get_host_name = host_of\<rparr>"

text \<open>No pod ever becomes ready.\<close>
definition env_never :: env where
  "env_never = \<lparr>conf = example_conf,
     read_namespaced_pod_status = (\<lambda>n p ns. Status (Some [False])),
     get_host_name = host_of\<rparr>"

text \<open>The state after the event ADDED for the master \<open>m1\<close>, from the initial state, when
  every pod is ready.\<close>

definition state_m1 :: manager where
  "state_m1 =
     \<lparr>init_provision = False, citus_master_nodes = [''m1''], citus_worker_nodes = [],
      citus_coordinator_nodes = [], polls = 1,
      trace = [ReadPodStatus ''m1'' ''citus'',
               ExecuteQuery ''m1'' ''pg-master'' set_coordinator_query
                 \<lparr>host = ''m1.pg-master'', port = 5432\<rparr>]\<rparr>"

text \<open>The set of workers is not empty and has reached the threshold.\<close>

definition threshold_met :: "env \<Rightarrow> manager \<Rightarrow> bool" where
  "threshold_met e s \<longleftrightarrow> citus_worker_nodes s \<noteq> [] \<and> reached e s"

text \<open>After some prefix of the events, from the initial state, \<open>P\<close> held.\<close>

definition held_before :: "(manager \<Rightarrow> bool) \<Rightarrow> env \<Rightarrow> event list \<Rightarrow> bool" where
  "held_before P e evs \<longleftrightarrow>
     (\<exists>k\<le>length evs. \<exists>sk. run e (take k evs) init = Some sk \<and> P sk)"


text \<open>Every pod is ready, and the threshold is zero.\<close>

definition env_zero :: env where
  "env_zero = env_ready\<lparr>conf := example_conf\<lparr>minimum_workers := 0\<rparr>\<rparr>"

text \<open>States of the runs from the initial state with every pod ready: after ADDED for the
  worker \<open>w1\<close>; then for the worker \<open>w2\<close>; then for the master \<open>m1\<close>. With the threshold zero:
  after ADDED for the master \<open>m1\<close>; then for the worker \<open>w1\<close>.\<close>

definition state_w1 :: manager where
  "state_w1 =
     \<lparr>init_provision = False, citus_master_nodes = [], citus_worker_nodes = [''w1''],
      citus_coordinator_nodes = [], polls = 1, trace = [ReadPodStatus ''w1'' ''citus'']\<rparr>"

definition state_w2 :: manager where
  "state_w2 =
     \<lparr>init_provision = True, citus_master_nodes = [], citus_worker_nodes = [''w1'', ''w2''],
      citus_coordinator_nodes = [], polls = 2,
      trace = [ReadPodStatus ''w1'' ''citus'', ReadPodStatus ''w2'' ''citus'', ProvisionAllNodes]\<rparr>"

definition state_w2_m1 :: manager where
  "state_w2_m1 =
     \<lparr>init_provision = True, citus_master_nodes = [''m1''],
      citus_worker_nodes = [''w1'', ''w2''], citus_coordinator_nodes = [], polls = 5,
      trace =
        [ReadPodStatus ''w1'' ''citus'', ReadPodStatus ''w2'' ''citus'', ProvisionAllNodes,
         ReadPodStatus ''m1'' ''citus'',
         ExecuteQuery ''m1'' ''pg-master'' set_coordinator_query
           \<lparr>host = ''m1.pg-master'', port = 5432\<rparr>,
         ProvisionMaster ''m1'', ReadPodStatus ''w1'' ''citus'',
         ExecuteQuery ''m1'' ''pg-master'' add_node_query \<lparr>host = ''w1.pg-worker'', port = 5432\<rparr>,
         ProvisionWorker ''w1'', ReadPodStatus ''w2'' ''citus'',
         ExecuteQuery ''m1'' ''pg-master'' add_node_query \<lparr>host = ''w2.pg-worker'', port = 5432\<rparr>,
         ProvisionWorker ''w2'']\<rparr>"

definition zero_m1 :: manager where
  "zero_m1 =
     \<lparr>init_provision = False, citus_master_nodes = [''m1''], citus_worker_nodes = [],
      citus_coordinator_nodes = [], polls = 1,
      trace =
        [ReadPodStatus ''m1'' ''citus'',
         ExecuteQuery ''m1'' ''pg-master'' set_coordinator_query
           \<lparr>host = ''m1.pg-master'', port = 5432\<rparr>,
         ProvisionMaster ''m1'']\<rparr>"

definition zero_m1_w1 :: manager where
  "zero_m1_w1 =
     \<lparr>init_provision = True, citus_master_nodes = [''m1''], citus_worker_nodes = [''w1''],
      citus_coordinator_nodes = [], polls = 2,
      trace =
        [ReadPodStatus ''m1'' ''citus'',
         ExecuteQuery ''m1'' ''pg-master'' set_coordinator_query
           \<lparr>host = ''m1.pg-master'', port = 5432\<rparr>,
         ProvisionMaster ''m1'', ReadPodStatus ''w1'' ''citus'',
         ExecuteQuery ''m1'' ''pg-master'' add_node_query \<lparr>host = ''w1.pg-worker'', port = 5432\<rparr>,
         ProvisionAllNodes]\<rparr>"

text \<open>The handler of an event ADDED for a pod whose label \<^verbatim>\<open>citusType\<close> is \<open>ct\<close>.\<close>

definition added_handler :: "env \<Rightarrow> string \<Rightarrow> handler option" where
  "added_handler e ct =
     (if ct = [] then None
      else case pod_interactions (conf e) ''ADDED'' of None \<Rightarrow> None | Some handlers \<Rightarrow> handlers ct)"

text \<open>Every registered pod is in the set of the handler its role is dispatched to.\<close>

definition role_inv :: "env \<Rightarrow> (string \<Rightarrow> string) \<Rightarrow> manager \<Rightarrow> bool" where
  "role_inv e role s \<longleftrightarrow>
     (\<forall>p \<in> set (citus_master_nodes s). added_handler e (role p) = Some Add_master) \<and>
     (\<forall>p \<in> set (citus_coordinator_nodes s). added_handler e (role p) = Some Add_coordinator) \<and>
     (\<forall>p \<in> set (citus_worker_nodes s). added_handler e (role p) = Some Add_worker)"

text \<open>Every event of the list carries the role \<open>role\<close> gives to its pod.\<close>

definition fixed_roles :: "(string \<Rightarrow> string) \<Rightarrow> event list \<Rightarrow> bool" where
  "fixed_roles role evs = list_all (\<lambda>ev. get_citus_type (object ev) = role (name (object ev))) evs"

definition disjoint_roles :: "manager \<Rightarrow> bool" where
  "disjoint_roles s \<longleftrightarrow>
     set (citus_master_nodes s) \<inter> set (citus_coordinator_nodes s) = {} \<and>
     set (citus_master_nodes s) \<inter> set (citus_worker_nodes s) = {} \<and>
     set (citus_coordinator_nodes s) \<inter> set (citus_worker_nodes s) = {}"


definition example_role :: "string \<Rightarrow> string" where
  "example_role n =
     (if n = ''m1'' then ''master'' else if n = ''c1'' then ''coordinator'' else ''worker'')"

text \<open>The state after ADDED for the worker \<open>w1\<close>, the master \<open>m1\<close> and the coordinator \<open>c1\<close>,
  every pod ready.\<close>

definition state_w1_m1_c1 :: manager where
  "state_w1_m1_c1 =
     \<lparr>init_provision = False, citus_master_nodes = [''m1''], citus_worker_nodes = [''w1''],
      citus_coordinator_nodes = [''c1''], polls = 5,
      trace =
        [ReadPodStatus ''w1'' ''citus'', ReadPodStatus ''m1'' ''citus'',
         ExecuteQuery ''m1'' ''pg-master'' set_coordinator_query
           \<lparr>host = ''m1.pg-master'', port = 5432\<rparr>,
         ReadPodStatus ''w1'' ''citus'',
         ExecuteQuery ''m1'' ''pg-master'' add_node_query \<lparr>host = ''w1.pg-worker'', port = 5432\<rparr>,
         ReadPodStatus ''c1'' ''citus'',
         ExecuteQuery ''c1'' ''pg-coordinator'' set_coordinator_query
           \<lparr>host = ''c1.pg-coordinator'', port = 5432\<rparr>,
         ReadPodStatus ''w1'' ''citus'',
         ExecuteQuery ''m1'' ''pg-master'' add_node_query \<lparr>host = ''w1.pg-worker'', port = 5432\<rparr>,
         ExecuteQuery ''c1'' ''pg-coordinator'' add_node_query
           \<lparr>host = ''w1.pg-worker'', port = 5432\<rparr>]\<rparr>"

text \<open>The state in which the handler \<open>h\<close> of a master or a coordinator starts its loop over
  the workers, and the provisioning call it makes for its pod.\<close>

definition joined :: "env \<Rightarrow> handler \<Rightarrow> string \<Rightarrow> manager \<Rightarrow> manager" where
  "joined e h p s1 = (if h = Add_master then master_joined e p s1 else coordinator_joined e p s1)"

definition provision_of :: "handler \<Rightarrow> string \<Rightarrow> effect" where
  "provision_of h p = (if h = Add_master then ProvisionMaster p else ProvisionCoordinator p)"



text \<open>Every pod is ready, but the fifth call of the API answers with HTTP 404.\<close>

definition env_flaky :: env where
  "env_flaky = \<lparr>conf = example_conf,
     read_namespaced_pod_status =
       (\<lambda>n p ns. if n = 4 then Raises (ApiException 404) else Status (Some [True, True])),
     get_host_name = host_of\<rparr>"

text \<open>The state in which \<^verbatim>\<open>add_master\<close> raises for the master \<open>m1\<close>, from \<open>state_w2\<close>, when
  the poll of the worker \<open>w2\<close> in the replay is answered with HTTP 404.\<close>

definition state_w2_m1_raised :: manager where
  "state_w2_m1_raised =
     \<lparr>init_provision = True, citus_master_nodes = [''m1''],
      citus_worker_nodes = [''w1'', ''w2''], citus_coordinator_nodes = [], polls = 5,
      trace =
        [ReadPodStatus ''w1'' ''citus'', ReadPodStatus ''w2'' ''citus'', ProvisionAllNodes,
         ReadPodStatus ''m1'' ''citus'',
         ExecuteQuery ''m1'' ''pg-master'' set_coordinator_query
           \<lparr>host = ''m1.pg-master'', port = 5432\<rparr>,
         ProvisionMaster ''m1'', ReadPodStatus ''w1'' ''citus'',
         ExecuteQuery ''m1'' ''pg-master'' add_node_query \<lparr>host = ''w1.pg-worker'', port = 5432\<rparr>,
         ProvisionWorker ''w1'', ReadPodStatus ''w2'' ''citus'']\<rparr>"


text \<open>The state after ADDED for the coordinator \<open>c1\<close>, from \<open>state_w2_m1\<close>.\<close>

definition state_w2_m1_c1 :: manager where
  "state_w2_m1_c1 =
     \<lparr>init_provision = True, citus_master_nodes = [''m1''],
      citus_worker_nodes = [''w1'', ''w2''], citus_coordinator_nodes = [''c1''], polls = 8,
      trace = trace state_w2_m1 @
        [ReadPodStatus ''c1'' ''citus'',
         ExecuteQuery ''c1'' ''pg-coordinator'' set_coordinator_query
           \<lparr>host = ''c1.pg-coordinator'', port = 5432\<rparr>,
         ProvisionCoordinator ''c1'', ReadPodStatus ''w1'' ''citus'',
         ExecuteQuery ''m1'' ''pg-master'' add_node_query \<lparr>host = ''w1.pg-worker'', port = 5432\<rparr>,
         ExecuteQuery ''c1'' ''pg-coordinator'' add_node_query
           \<lparr>host = ''w1.pg-worker'', port = 5432\<rparr>,
         ProvisionWorker ''w1'', ReadPodStatus ''w2'' ''citus'',
         ExecuteQuery ''m1'' ''pg-master'' add_node_query \<lparr>host = ''w2.pg-worker'', port = 5432\<rparr>,
         ExecuteQuery ''c1'' ''pg-coordinator'' add_node_query
           \<lparr>host = ''w2.pg-worker'', port = 5432\<rparr>,
         ProvisionWorker ''w2'']\<rparr>"

text \<open>The state in the replay for the master \<open>m1\<close>, from \<open>state_w2\<close>, after the worker \<open>w1\<close>.\<close>

definition state_w2_m1_w1 :: manager where
  "state_w2_m1_w1 =
     \<lparr>init_provision = True, citus_master_nodes = [''m1''],
      citus_worker_nodes = [''w1'', ''w2''], citus_coordinator_nodes = [], polls = 4,
      trace =
        [ReadPodStatus ''w1'' ''citus'', ReadPodStatus ''w2'' ''citus'', ProvisionAllNodes,
         ReadPodStatus ''m1'' ''citus'',
         ExecuteQuery ''m1'' ''pg-master'' set_coordinator_query
           \<lparr>host = ''m1.pg-master'', port = 5432\<rparr>,
         ProvisionMaster ''m1'', ReadPodStatus ''w1'' ''citus'',
         ExecuteQuery ''m1'' ''pg-master'' add_node_query \<lparr>host = ''w1.pg-worker'', port = 5432\<rparr>,
         ProvisionWorker ''w1'']\<rparr>"


section \<open>Properties\<close>

subsection \<open>Sets\<close>

lemma discard_absent: "x \<notin> set xs \<Longrightarrow> discard x xs = xs"
  by (simp add: discard_def)

lemma set_discard [simp]: "set (discard x xs) = set xs - {x}"
  by (auto simp: discard_def)

lemma length_discard: "length (discard x xs) \<le> length xs"
  by (simp add: discard_def)


subsection \<open>The readiness gate\<close>

lemma emit_simps [simp]:
  "trace (emit c s) = trace s @ [c]"
  "polls (emit c s) = polls s"
  "init_provision (emit c s) = init_provision s"
  "citus_master_nodes (emit c s) = citus_master_nodes s"
  "citus_worker_nodes (emit c s) = citus_worker_nodes s"
  "citus_coordinator_nodes (emit c s) = citus_coordinator_nodes s"
  by (simp_all add: emit_def)

lemma polled_simps [simp]:
  "trace (polled e p s) = trace s @ [ReadPodStatus p (namespace (conf e))]"
  "polls (polled e p s) = Suc (polls s)"
  "init_provision (polled e p s) = init_provision s"
  "citus_master_nodes (polled e p s) = citus_master_nodes s"
  "citus_worker_nodes (polled e p s) = citus_worker_nodes s"
  "citus_coordinator_nodes (polled e p s) = citus_coordinator_nodes s"
  by (simp_all add: polled_def)

lemma gate_frame_polled: "gate_frame s (polled e p s)"
  by (simp add: gate_frame_def)

lemma gate_frame_retry:
  "gate_frame (emit (Sleep d) (polled e p s)) s' \<Longrightarrow> gate_frame s s'"
  by (auto simp: gate_frame_def)

lemma request_frame:
  assumes "request_pod_readiness e p s = Some y"
  shows "gate_frame s (snd y)"
proof (rule request_pod_readiness.raw_induct
    [where P = "\<lambda>e p s y. gate_frame s (snd y)", OF _ assms])
  fix f :: "env \<Rightarrow> string \<Rightarrow> manager \<Rightarrow> (exn option \<times> manager) option"
    and e :: env and p s y
  assume IH: "\<And>e p s y. f e p s = Some y \<Longrightarrow> gate_frame s (snd y)"
    and eq: "(case attempt (api_answer e p s) of
        None \<Rightarrow> Some (None, polled e p s)
      | Some x \<Rightarrow>
          if retry_on_exception x
          then f e p (emit (Sleep 5000) (polled e p s))
          else Some (Some x, polled e p s)) = Some y"
  show "gate_frame s (snd y)"
  proof (cases "attempt (api_answer e p s)")
    case None
    with eq show ?thesis by (auto simp: gate_frame_polled)
  next
    case (Some x)
    show ?thesis
    proof (cases "retry_on_exception x")
      case True
      with Some eq have "f e p (emit (Sleep 5000) (polled e p s)) = Some y" by simp
      then show ?thesis using IH gate_frame_retry by blast
    next
      case False
      with Some eq show ?thesis by (auto simp: gate_frame_polled)
    qed
  qed
qed

lemma request_raises_aux:
  assumes "request_pod_readiness e p s = Some y"
  shows "\<forall>x. fst y = Some x \<longrightarrow> \<not> retry_on_exception x"
  by (rule request_pod_readiness.raw_induct
        [where P = "\<lambda>e p s y. \<forall>x. fst y = Some x \<longrightarrow> \<not> retry_on_exception x", OF _ assms])
     (auto split: option.splits if_splits)

lemma request_pod_readiness_raises:
  assumes "request_pod_readiness e p s = Some (Some x, s')"
  shows "\<exists>status. x = ApiException status"
proof -
  from request_raises_aux[OF assms] have "\<not> retry_on_exception x" by simp
  then show ?thesis by (cases x) simp_all
qed

lemma request_returns_terminal:
  assumes "request_pod_readiness e p s = Some y"
  shows "\<exists>k. \<not> retryable (read_namespaced_pod_status e (polls s + k) p (namespace (conf e)))"
proof (rule request_pod_readiness.raw_induct
    [where P = "\<lambda>e p s y. \<exists>k. \<not> retryable (read_namespaced_pod_status e (polls s + k) p (namespace (conf e)))", OF _ assms])
  fix f :: "env \<Rightarrow> string \<Rightarrow> manager \<Rightarrow> (exn option \<times> manager) option"
    and e :: env and p s y
  assume IH: "\<And>e p s y. f e p s = Some y \<Longrightarrow>
      \<exists>k. \<not> retryable (read_namespaced_pod_status e (polls s + k) p (namespace (conf e)))"
    and eq: "(case attempt (api_answer e p s) of
        None \<Rightarrow> Some (None, polled e p s)
      | Some x \<Rightarrow>
          if retry_on_exception x
          then f e p (emit (Sleep 5000) (polled e p s))
          else Some (Some x, polled e p s)) = Some y"
  let ?T = "\<lambda>k. \<not> retryable (read_namespaced_pod_status e (polls s + k) p (namespace (conf e)))"
  show "\<exists>k. ?T k"
  proof (cases "?T 0")
    case True then show ?thesis by blast
  next
    case False
    then obtain x where x: "attempt (api_answer e p s) = Some x" "retry_on_exception x"
      by (auto simp: retryable_def api_answer_def split: option.splits)
    with eq have "f e p (emit (Sleep 5000) (polled e p s)) = Some y" by simp
    from IH[OF this] obtain k where "?T (Suc k)" by auto
    then show ?thesis by blast
  qed
qed

lemma check_frame:
  "check_pod_readiness e p s = Some (r, s') \<Longrightarrow> gate_frame s s'"
  by (auto simp: check_pod_readiness_def split: option.splits prod.splits dest: request_frame)

lemma check_ready:
  "attempt (api_answer e p s) = None \<Longrightarrow> check_pod_readiness e p s = Some (Returned, polled e p s)"
  by (simp add: check_pod_readiness_def request_pod_readiness.simps)

lemma check_api_exception:
  "api_answer e p s = Raises (ApiException status) \<Longrightarrow>
     check_pod_readiness e p s = Some (ReadinessError, polled e p s)"
  by (simp add: check_pod_readiness_def request_pod_readiness.simps)

lemma check_retry:
  "retryable (api_answer e p s) \<Longrightarrow>
     check_pod_readiness e p s = check_pod_readiness e p (emit (Sleep 5000) (polled e p s))"
  by (subst check_pod_readiness_def, subst request_pod_readiness.simps)
     (auto simp: retryable_def check_pod_readiness_def split: option.splits)

lemma check_never:
  assumes "\<forall>k. retryable (read_namespaced_pod_status e (polls s + k) p (namespace (conf e)))"
  shows "check_pod_readiness e p s = None"
proof (cases "request_pod_readiness e p s")
  case None
  then show ?thesis by (simp add: check_pod_readiness_def)
next
  case (Some y)
  from request_returns_terminal[OF this] assms show ?thesis by blast
qed

lemma retryable_cases:
  "retryable r \<longleftrightarrow>
     r = Status None \<or> (\<exists>readiness. r = Status (Some readiness) \<and> \<not> list_all (\<lambda>ready. ready) readiness)
     \<or> (\<exists>x. r = Raises x \<and> (\<forall>status. x \<noteq> ApiException status))"
  apply (cases r)
  subgoal for x by (cases x) (auto simp: retryable_def)
  subgoal for x by (cases x) (auto simp: retryable_def)
  done

subsection \<open>The handlers\<close>

lemma fold_execute_query:
  "fold (\<lambda>n. execute_query n svc q prm) ns s =
     s\<lparr>trace := trace s @ map (\<lambda>n. ExecuteQuery n svc q prm) ns\<rparr>"
  by (induction ns arbitrary: s) (simp_all add: execute_query_def emit_def)

lemma exec_on_masters_eq:
  "exec_on_masters e q w s =
     s\<lparr>trace := trace s @
          map (\<lambda>master. ExecuteQuery master (master_service (conf e)) q (worker_params e w))
            (citus_master_nodes s)\<rparr>"
  by (simp add: exec_on_masters_def fold_execute_query)

lemma exec_on_coordinators_eq:
  "exec_on_coordinators e q w s =
     s\<lparr>trace := trace s @
          map (\<lambda>coordinator. ExecuteQuery coordinator (coordinator_service (conf e)) q (worker_params e w))
            (citus_coordinator_nodes s)\<rparr>"
  by (simp add: exec_on_coordinators_def fold_execute_query)

lemma add_worker_Returned:
  assumes "check_pod_readiness e p s = Some (Returned, s1)"
  shows "add_worker e p s =
     Some (Returned,
       s1\<lparr>citus_worker_nodes := set_add p (citus_worker_nodes s1),
          init_provision := init_provision s1 \<or> reached e (s1\<lparr>citus_worker_nodes := set_add p (citus_worker_nodes s1)\<rparr>),
          trace := trace s1 @ add_node_queries e (citus_master_nodes s1) (citus_coordinator_nodes s1) p @
                   provisioning e p (s1\<lparr>citus_worker_nodes := set_add p (citus_worker_nodes s1)\<rparr>)\<rparr>)"
  using assms
  by (simp add: add_worker_def exec_on_masters_eq exec_on_coordinators_eq Let_def reached_def
      add_node_queries_def provisioning_def emit_def)

lemma add_worker_ReadinessError:
  "check_pod_readiness e p s = Some (ReadinessError, s1) \<Longrightarrow>
     add_worker e p s = Some (ReadinessError, s1)"
  by (simp add: add_worker_def)

lemma add_worker_None:
  "check_pod_readiness e p s = None \<Longrightarrow> add_worker e p s = None"
  by (simp add: add_worker_def)

lemma gate_frameD:
  assumes "gate_frame s s'"
  shows "init_provision s' = init_provision s"
    and "citus_master_nodes s' = citus_master_nodes s"
    and "citus_worker_nodes s' = citus_worker_nodes s"
    and "citus_coordinator_nodes s' = citus_coordinator_nodes s"
    and "reached e s' = reached e s"
    and "flag_inv e s' = flag_inv e s"
  using assms by (simp_all add: gate_frame_def reached_def flag_inv_def)

lemma gate_frame_trace:
  "gate_frame s s' \<Longrightarrow> \<exists>new. trace s' = trace s @ new \<and> list_all is_poll new"
  by (simp add: gate_frame_def)

lemma set_add_member [simp]: "p \<in> set xs \<Longrightarrow> set_add p xs = xs"
  by (simp add: set_add_def)

lemma set_set_add [simp]: "set (set_add p xs) = insert p (set xs)"
  by (auto simp: set_add_def)

lemma set_add_not_Nil [simp]: "set_add p xs \<noteq> []"
  by (auto simp: set_add_def)

lemma distinct_set_add [simp]: "distinct xs \<Longrightarrow> distinct (set_add p xs)"
  by (simp add: set_add_def)

lemma length_set_add: "length xs \<le> length (set_add p xs)"
  by (simp add: set_add_def)

text \<open>The cases of one call of add_worker.\<close>
lemma add_worker_cases:
  assumes "add_worker e p s = Some (r, s')"
  obtains
    (raised) "r = ReadinessError" "check_pod_readiness e p s = Some (ReadinessError, s')" "gate_frame s s'"
  | (returned) s1 where "r = Returned" "check_pod_readiness e p s = Some (Returned, s1)" "gate_frame s s1"
      "s' = s1\<lparr>citus_worker_nodes := set_add p (citus_worker_nodes s1),
          init_provision := init_provision s1 \<or> reached e (s1\<lparr>citus_worker_nodes := set_add p (citus_worker_nodes s1)\<rparr>),
          trace := trace s1 @ add_node_queries e (citus_master_nodes s1) (citus_coordinator_nodes s1) p @
                   provisioning e p (s1\<lparr>citus_worker_nodes := set_add p (citus_worker_nodes s1)\<rparr>)\<rparr>"
proof (cases "check_pod_readiness e p s")
  case None
  with assms show ?thesis by (simp add: add_worker_None)
next
  case (Some y)
  obtain r1 s1 where y: "y = (r1, s1)" by (cases y)
  show ?thesis
  proof (cases r1)
    case Returned
    with Some y have c: "check_pod_readiness e p s = Some (Returned, s1)" by simp
    from add_worker_Returned[OF c] assms have "r = Returned" and
      "s' = s1\<lparr>citus_worker_nodes := set_add p (citus_worker_nodes s1),
          init_provision := init_provision s1 \<or> reached e (s1\<lparr>citus_worker_nodes := set_add p (citus_worker_nodes s1)\<rparr>),
          trace := trace s1 @ add_node_queries e (citus_master_nodes s1) (citus_coordinator_nodes s1) p @
                   provisioning e p (s1\<lparr>citus_worker_nodes := set_add p (citus_worker_nodes s1)\<rparr>)\<rparr>"
      by simp_all
    with c check_frame[OF c] show ?thesis using returned by blast
  next
    case ReadinessError
    with Some y have c: "check_pod_readiness e p s = Some (ReadinessError, s1)" by simp
    from add_worker_ReadinessError[OF c] assms have "r = ReadinessError" "s' = s1" by simp_all
    with c check_frame[OF c] show ?thesis using raised by blast
  qed
qed

lemma add_worker_frame:
  assumes "add_worker e p s = Some (r, s')"
  shows "citus_master_nodes s' = citus_master_nodes s"
    and "citus_coordinator_nodes s' = citus_coordinator_nodes s"
    and "init_provision s \<longrightarrow> init_provision s'"
    and "set (citus_worker_nodes s') \<subseteq> insert p (set (citus_worker_nodes s))"
    and "flag_inv e s \<longrightarrow> flag_inv e s'"
  using assms
  by (cases rule: add_worker_cases; auto simp: gate_frameD flag_inv_def reached_def)+

lemma add_worker_member:
  assumes "add_worker e p s = Some (r, s')" and "p \<in> set (citus_worker_nodes s)" and "flag_inv e s"
  shows "citus_worker_nodes s' = citus_worker_nodes s" and "init_provision s' = init_provision s"
  using assms
  by (cases rule: add_worker_cases; auto simp: gate_frameD flag_inv_def reached_def)+

lemma effects_since_append: "trace s' = trace s @ new \<Longrightarrow> effects_since s s' = new"
  by (simp add: effects_since_def)

lemma polls_no_add_node: "list_all is_poll xs \<Longrightarrow> filter is_add_node xs = []"
proof (induction xs)
  case (Cons c xs) then show ?case by (cases c) simp_all
qed simp

lemma polls_no_provision: "list_all is_poll xs \<Longrightarrow> filter is_provision xs = []"
proof (induction xs)
  case (Cons c xs) then show ?case by (cases c) simp_all
qed simp

lemma polls_no_query: "list_all is_poll xs \<Longrightarrow> filter is_query xs = []"
proof (induction xs)
  case (Cons c xs) then show ?case by (cases c) simp_all
qed simp

lemma add_node_queries_filter [simp]:
  "filter is_add_node (add_node_queries e ms cs w) = add_node_queries e ms cs w"
  "filter is_provision (add_node_queries e ms cs w) = []"
  by (simp_all add: add_node_queries_def filter_map o_def)

lemma provisioning_filter [simp]:
  "filter is_add_node (provisioning e w s) = []"
  "filter is_provision (provisioning e w s) = provisioning e w s"
  by (simp_all add: provisioning_def)

text \<open>The effects of one call of add_worker.\<close>
lemma add_worker_effects:
  assumes "add_worker e p s = Some (r, s')"
  shows "\<exists>new. trace s' = trace s @ new \<and>
           filter is_add_node new =
             (if r = Returned then add_node_queries e (citus_master_nodes s) (citus_coordinator_nodes s) p else []) \<and>
           filter is_provision new =
             (if r = Returned
              then provisioning e p (s\<lparr>citus_worker_nodes := set_add p (citus_worker_nodes s)\<rparr>) else [])"
  using assms
proof (cases rule: add_worker_cases)
  case raised
  from gate_frame_trace[OF raised(3)] obtain new where "trace s' = trace s @ new" "list_all is_poll new"
    by blast
  with raised(1) show ?thesis by (auto simp: polls_no_add_node polls_no_provision)
next
  case (returned s1)
  from gate_frame_trace[OF returned(3)] obtain new where n: "trace s1 = trace s @ new" "list_all is_poll new"
    by blast
  have p: "provisioning e p (s1\<lparr>citus_worker_nodes := set_add p (citus_worker_nodes s1)\<rparr>) =
           provisioning e p (s\<lparr>citus_worker_nodes := set_add p (citus_worker_nodes s)\<rparr>)"
    using returned(3) by (simp add: provisioning_def reached_def gate_frame_def)
  show ?thesis
    apply (rule exI[of _ "new @ add_node_queries e (citus_master_nodes s) (citus_coordinator_nodes s) p @
        provisioning e p (s\<lparr>citus_worker_nodes := set_add p (citus_worker_nodes s)\<rparr>)"])
    using returned n p
    by (simp add: polls_no_add_node polls_no_provision gate_frameD[OF returned(3)])
qed

lemma replay_frame:
  assumes "replay e ws s = Some (r, s')"
  shows "citus_master_nodes s' = citus_master_nodes s \<and>
         citus_coordinator_nodes s' = citus_coordinator_nodes s \<and>
         (init_provision s \<longrightarrow> init_provision s') \<and>
         set (citus_worker_nodes s') \<subseteq> set ws \<union> set (citus_worker_nodes s) \<and>
         (flag_inv e s \<longrightarrow> flag_inv e s')"
  using assms
proof (induction ws arbitrary: s)
  case Nil
  then show ?case by simp
next
  case (Cons w ws)
  show ?case
  proof (cases "add_worker e w s")
    case None
    with Cons.prems show ?thesis by simp
  next
    case (Some y)
    obtain r1 s1 where y: "y = (r1, s1)" by (cases y)
    note f = add_worker_frame[OF Some[unfolded y]]
    show ?thesis
    proof (cases r1)
      case Returned
      with Some y Cons.prems have "replay e ws s1 = Some (r, s')" by simp
      from Cons.IH[OF this] f show ?thesis by auto
    next
      case ReadinessError
      with Some y Cons.prems have "s' = s1" by simp
      with f show ?thesis by auto
    qed
  qed
qed

text \<open>Replaying workers that are registered, in a state that satisfies the invariant of the flag.\<close>
lemma replay_members:
  assumes "replay e ws s = Some (r, s')" and "set ws \<subseteq> set (citus_worker_nodes s)" and "flag_inv e s"
  shows "citus_worker_nodes s' = citus_worker_nodes s \<and> init_provision s' = init_provision s"
  using assms
proof (induction ws arbitrary: s)
  case Nil
  then show ?case by simp
next
  case (Cons w ws)
  show ?case
  proof (cases "add_worker e w s")
    case None
    with Cons.prems show ?thesis by simp
  next
    case (Some y)
    obtain r1 s1 where y: "y = (r1, s1)" by (cases y)
    from Cons.prems have w: "w \<in> set (citus_worker_nodes s)" by simp
    note m = add_worker_member[OF Some[unfolded y] w Cons.prems(3)]
    note f = add_worker_frame(5)[OF Some[unfolded y]]
    show ?thesis
    proof (cases r1)
      case Returned
      with Some y Cons.prems have "replay e ws s1 = Some (r, s')" by simp
      from Cons.IH[OF this] Cons.prems m f show ?thesis by auto
    next
      case ReadinessError
      with Some y Cons.prems have "s' = s1" by simp
      with m show ?thesis by auto
    qed
  qed
qed

subsection \<open>Masters, coordinators and the dispatcher\<close>

lemma add_master_eq:
  "add_master e m s =
     (case check_pod_readiness e m s of
        None \<Rightarrow> None
      | Some (ReadinessError, s1) \<Rightarrow> Some (ReadinessError, s1)
      | Some (Returned, s1) \<Rightarrow> replay e (citus_worker_nodes s1) (master_joined e m s1))"
  by (simp add: add_master_def master_joined_def set_coordinator_master_def execute_query_def
      emit_def reached_def Let_def split: option.splits outcome.splits)

lemma add_coordinator_eq:
  "add_coordinator e c s =
     (case check_pod_readiness e c s of
        None \<Rightarrow> None
      | Some (ReadinessError, s1) \<Rightarrow> Some (ReadinessError, s1)
      | Some (Returned, s1) \<Rightarrow> replay e (citus_worker_nodes s1) (coordinator_joined e c s1))"
  by (simp add: add_coordinator_def coordinator_joined_def set_coordinator_coordinator_def
      execute_query_def emit_def reached_def Let_def split: option.splits outcome.splits)

lemma master_joined_simps [simp]:
  "citus_master_nodes (master_joined e m s) = set_add m (citus_master_nodes s)"
  "citus_worker_nodes (master_joined e m s) = citus_worker_nodes s"
  "citus_coordinator_nodes (master_joined e m s) = citus_coordinator_nodes s"
  "init_provision (master_joined e m s) = init_provision s"
  "reached e' (master_joined e m s) = reached e' s"
  "flag_inv e' (master_joined e m s) = flag_inv e' s"
  by (simp_all add: master_joined_def reached_def flag_inv_def)

lemma coordinator_joined_simps [simp]:
  "citus_master_nodes (coordinator_joined e c s) = citus_master_nodes s"
  "citus_worker_nodes (coordinator_joined e c s) = citus_worker_nodes s"
  "citus_coordinator_nodes (coordinator_joined e c s) = set_add c (citus_coordinator_nodes s)"
  "init_provision (coordinator_joined e c s) = init_provision s"
  "reached e' (coordinator_joined e c s) = reached e' s"
  "flag_inv e' (coordinator_joined e c s) = flag_inv e' s"
  by (simp_all add: coordinator_joined_def reached_def flag_inv_def)

lemma add_master_cases:
  assumes "add_master e m s = Some (r, s')"
  obtains
    (raised) "r = ReadinessError" "check_pod_readiness e m s = Some (ReadinessError, s')" "gate_frame s s'"
  | (replayed) s1 where "check_pod_readiness e m s = Some (Returned, s1)" "gate_frame s s1"
      "replay e (citus_worker_nodes s) (master_joined e m s1) = Some (r, s')"
proof (cases "check_pod_readiness e m s")
  case None
  with assms show ?thesis by (simp add: add_master_eq)
next
  case (Some y)
  obtain r1 s1 where y: "y = (r1, s1)" by (cases y)
  from Some y have c: "check_pod_readiness e m s = Some (r1, s1)" by simp
  note f = check_frame[OF c]
  show ?thesis
  proof (cases r1)
    case Returned
    with c assms have "replay e (citus_worker_nodes s) (master_joined e m s1) = Some (r, s')"
      by (simp add: add_master_eq gate_frameD[OF f])
    with c f Returned show ?thesis using replayed by blast
  next
    case ReadinessError
    with c assms have "r = ReadinessError" "s' = s1" by (simp_all add: add_master_eq)
    with c f ReadinessError show ?thesis using raised by blast
  qed
qed

lemma add_coordinator_cases:
  assumes "add_coordinator e c s = Some (r, s')"
  obtains
    (raised) "r = ReadinessError" "check_pod_readiness e c s = Some (ReadinessError, s')" "gate_frame s s'"
  | (replayed) s1 where "check_pod_readiness e c s = Some (Returned, s1)" "gate_frame s s1"
      "replay e (citus_worker_nodes s) (coordinator_joined e c s1) = Some (r, s')"
proof (cases "check_pod_readiness e c s")
  case None
  with assms show ?thesis by (simp add: add_coordinator_eq)
next
  case (Some y)
  obtain r1 s1 where y: "y = (r1, s1)" by (cases y)
  from Some y have c: "check_pod_readiness e c s = Some (r1, s1)" by simp
  note f = check_frame[OF c]
  show ?thesis
  proof (cases r1)
    case Returned
    with c assms have "replay e (citus_worker_nodes s) (coordinator_joined e c s1) = Some (r, s')"
      by (simp add: add_coordinator_eq gate_frameD[OF f])
    with c f Returned show ?thesis using replayed by blast
  next
    case ReadinessError
    with c assms have "r = ReadinessError" "s' = s1" by (simp_all add: add_coordinator_eq)
    with c f ReadinessError show ?thesis using raised by blast
  qed
qed

text \<open>In a state that satisfies the invariant of the flag, a master or coordinator event
  changes neither the flag nor the set of workers.\<close>
lemma add_master_flag:
  assumes "add_master e m s = Some (r, s')" and "flag_inv e s"
  shows "init_provision s' = init_provision s \<and> citus_worker_nodes s' = citus_worker_nodes s \<and>
         citus_coordinator_nodes s' = citus_coordinator_nodes s \<and>
         set (citus_master_nodes s') \<subseteq> insert m (set (citus_master_nodes s))"
  using assms(1)
proof (cases rule: add_master_cases)
  case raised
  then show ?thesis by (auto simp: gate_frameD)
next
  case (replayed s1)
  have i: "flag_inv e (master_joined e m s1)" using assms(2) replayed(2) by (simp add: gate_frameD)
  have w: "set (citus_worker_nodes s) \<subseteq> set (citus_worker_nodes (master_joined e m s1))"
    using replayed(2) by (simp add: gate_frameD)
  from replay_members[OF replayed(3) w i] replay_frame[OF replayed(3), of ] replayed(2)
  show ?thesis by (auto simp: gate_frameD)
qed

lemma add_coordinator_flag:
  assumes "add_coordinator e c s = Some (r, s')" and "flag_inv e s"
  shows "init_provision s' = init_provision s \<and> citus_worker_nodes s' = citus_worker_nodes s \<and>
         citus_master_nodes s' = citus_master_nodes s \<and>
         set (citus_coordinator_nodes s') \<subseteq> insert c (set (citus_coordinator_nodes s))"
  using assms(1)
proof (cases rule: add_coordinator_cases)
  case raised
  then show ?thesis by (auto simp: gate_frameD)
next
  case (replayed s1)
  have i: "flag_inv e (coordinator_joined e c s1)" using assms(2) replayed(2) by (simp add: gate_frameD)
  have w: "set (citus_worker_nodes s) \<subseteq> set (citus_worker_nodes (coordinator_joined e c s1))"
    using replayed(2) by (simp add: gate_frameD)
  from replay_members[OF replayed(3) w i] replay_frame[OF replayed(3)] replayed(2)
  show ?thesis by (auto simp: gate_frameD)
qed

lemma flag_inv_same:
  "init_provision s' = init_provision s \<Longrightarrow> citus_worker_nodes s' = citus_worker_nodes s \<Longrightarrow>
   flag_inv e s' = flag_inv e s"
  by (simp add: flag_inv_def reached_def)

lemma remove_simps [simp]:
  "init_provision (remove_master p s) = init_provision s"
  "citus_worker_nodes (remove_master p s) = citus_worker_nodes s"
  "citus_coordinator_nodes (remove_master p s) = citus_coordinator_nodes s"
  "citus_master_nodes (remove_master p s) = discard p (citus_master_nodes s)"
  "init_provision (remove_coordinator p s) = init_provision s"
  "citus_worker_nodes (remove_coordinator p s) = citus_worker_nodes s"
  "citus_master_nodes (remove_coordinator p s) = citus_master_nodes s"
  "citus_coordinator_nodes (remove_coordinator p s) = discard p (citus_coordinator_nodes s)"
  "init_provision (remove_worker e p s) = init_provision s"
  "citus_worker_nodes (remove_worker e p s) = discard p (citus_worker_nodes s)"
  "citus_master_nodes (remove_worker e p s) = citus_master_nodes s"
  "citus_coordinator_nodes (remove_worker e p s) = citus_coordinator_nodes s"
  by (simp_all add: remove_master_def remove_coordinator_def remove_worker_def exec_on_masters_eq)

lemma flag_inv_remove_worker: "flag_inv e s \<Longrightarrow> flag_inv e (remove_worker e p s)"
proof -
  assume i: "flag_inv e s"
  have l: "length (discard p (citus_worker_nodes s)) \<le> length (citus_worker_nodes s)"
    by (rule length_discard)
  have n: "discard p (citus_worker_nodes s) \<noteq> [] \<Longrightarrow> citus_worker_nodes s \<noteq> []"
    by (auto simp: discard_def)
  from i l n show ?thesis
    by (auto simp: flag_inv_def reached_def)
qed

lemma call_flag_inv:
  assumes "call e h p s = Some (r, s')" and "flag_inv e s"
  shows "flag_inv e s'"
proof (cases h)
  case Add_master
  with assms add_master_flag[of e p s r s'] flag_inv_same[of s' s e] show ?thesis by simp
next
  case Add_coordinator
  with assms add_coordinator_flag[of e p s r s'] flag_inv_same[of s' s e] show ?thesis by simp
next
  case Add_worker
  with assms add_worker_frame(5)[of e p s r s'] show ?thesis by simp
next
  case Remove_master
  with assms flag_inv_same[of s' s e] show ?thesis by auto
next
  case Remove_coordinator
  with assms flag_inv_same[of s' s e] show ?thesis by auto
next
  case Remove_worker
  with assms show ?thesis by (auto simp: flag_inv_remove_worker)
qed

lemma dispatch_eq:
  "dispatch e ev s =
     (case handler_of e ev of
        None \<Rightarrow> Some s
      | Some h \<Rightarrow> map_option snd (call e h (name (object ev)) s))"
  by (auto simp: dispatch_def handler_of_def parse_event_def split: option.splits prod.splits)

lemma dispatch_cases:
  assumes "dispatch e ev s = Some s'"
  obtains (skipped) "handler_of e ev = None" "s' = s"
  | (handled) h r where "handler_of e ev = Some h" "call e h (name (object ev)) s = Some (r, s')"
  using assms by (auto simp: dispatch_eq split: option.splits)

lemma dispatch_flag_inv:
  assumes "dispatch e ev s = Some s'" and "flag_inv e s"
  shows "flag_inv e s'"
  using assms(1)
  by (cases rule: dispatch_cases) (auto intro: call_flag_inv assms(2))

lemma run_flag_inv:
  "run e evs s = Some s' \<Longrightarrow> flag_inv e s \<Longrightarrow> flag_inv e s'"
proof (induction evs arbitrary: s)
  case (Cons ev evs)
  then show ?case by (auto split: option.splits dest: dispatch_flag_inv)
qed simp

lemma flag_inv_init: "flag_inv e init"
  by (simp add: flag_inv_def init_def)

lemma run_append:
  "run e (evs @ evs') s = (case run e evs s of None \<Rightarrow> None | Some s1 \<Rightarrow> run e evs' s1)"
  by (induction evs arbitrary: s) (auto split: option.splits)

subsection \<open>Evaluation of the model on concrete inputs\<close>

lemmas model_defs =
  dispatch_def parse_event_def get_citus_type_def pod_interactions_def pod_event_def
  add_master_def add_coordinator_def add_worker_def remove_master_def remove_coordinator_def
  remove_worker_def check_pod_readiness_def request_pod_readiness.simps api_answer_def polled_def
  set_coordinator_master_def set_coordinator_coordinator_def exec_on_masters_def
  exec_on_coordinators_def execute_query_def worker_params_def emit_def set_add_def discard_def
  init_def Let_def

lemmas example_defs =
  env_ready_def env_late_def env_500_def env_never_def example_conf_def host_of_def

subsection \<open>The flag along a run\<close>

lemma add_master_frame:
  assumes "add_master e m s = Some (r, s')"
  shows "set (citus_master_nodes s') \<subseteq> insert m (set (citus_master_nodes s)) \<and>
         citus_coordinator_nodes s' = citus_coordinator_nodes s \<and>
         set (citus_worker_nodes s') \<subseteq> set (citus_worker_nodes s) \<and>
         (init_provision s \<longrightarrow> init_provision s')"
  using assms
proof (cases rule: add_master_cases)
  case raised
  then show ?thesis by (auto simp: gate_frameD)
next
  case (replayed s1)
  from replay_frame[OF replayed(3)] replayed(2) show ?thesis by (auto simp: gate_frameD)
qed

lemma add_coordinator_frame:
  assumes "add_coordinator e c s = Some (r, s')"
  shows "set (citus_coordinator_nodes s') \<subseteq> insert c (set (citus_coordinator_nodes s)) \<and>
         citus_master_nodes s' = citus_master_nodes s \<and>
         set (citus_worker_nodes s') \<subseteq> set (citus_worker_nodes s) \<and>
         (init_provision s \<longrightarrow> init_provision s')"
  using assms
proof (cases rule: add_coordinator_cases)
  case raised
  then show ?thesis by (auto simp: gate_frameD)
next
  case (replayed s1)
  from replay_frame[OF replayed(3)] replayed(2) show ?thesis by (auto simp: gate_frameD)
qed

lemma call_flag_mono:
  assumes "call e h p s = Some (r, s')" and "init_provision s"
  shows "init_provision s'"
proof (cases h)
  case Add_master
  with assms add_master_frame[of e p s r s'] show ?thesis by simp
next
  case Add_coordinator
  with assms add_coordinator_frame[of e p s r s'] show ?thesis by simp
next
  case Add_worker
  with assms add_worker_frame(3)[of e p s r s'] show ?thesis by simp
qed (use assms in auto)

lemma dispatch_flag_mono:
  assumes "dispatch e ev s = Some s'" and "init_provision s"
  shows "init_provision s'"
  using assms(1) by (cases rule: dispatch_cases) (auto intro: call_flag_mono assms(2))

lemma run_flag_mono:
  "run e evs s = Some s' \<Longrightarrow> init_provision s \<Longrightarrow> init_provision s'"
proof (induction evs arbitrary: s)
  case (Cons ev evs)
  then show ?case by (auto split: option.splits dest: dispatch_flag_mono)
qed simp

lemma threshold_met_flag: "flag_inv e s \<Longrightarrow> threshold_met e s \<Longrightarrow> init_provision s"
  by (simp add: flag_inv_def threshold_met_def)

lemma threshold_met_same:
  "citus_worker_nodes s' = citus_worker_nodes s \<Longrightarrow> threshold_met e s' = threshold_met e s"
  by (simp add: threshold_met_def reached_def)

lemma call_flag_sets:
  assumes i: "flag_inv e s" and c: "call e h p s = Some (r, s')"
  shows "init_provision s' = (init_provision s \<or> threshold_met e s')"
proof (cases h)
  case Add_master
  with c have "add_master e p s = Some (r, s')" by simp
  from add_master_flag[OF this i] threshold_met_same[of s' s e] threshold_met_flag[OF i]
  show ?thesis by auto
next
  case Add_coordinator
  with c have "add_coordinator e p s = Some (r, s')" by simp
  from add_coordinator_flag[OF this i] threshold_met_same[of s' s e] threshold_met_flag[OF i]
  show ?thesis by auto
next
  case Add_worker
  with c have a: "add_worker e p s = Some (r, s')" by simp
  from a show ?thesis
  proof (cases rule: add_worker_cases)
    case raised
    from gate_frameD(1)[OF raised(3)] threshold_met_same[OF gate_frameD(3)[OF raised(3)], of e]
      threshold_met_flag[OF i]
    show ?thesis by auto
  next
    case (returned s1)
    from returned(4) gate_frameD(1)[OF returned(3)] show ?thesis
      by (auto simp: reached_def threshold_met_def)
  qed
next
  case Remove_master
  with c threshold_met_same[of s' s e] threshold_met_flag[OF i] show ?thesis by auto
next
  case Remove_coordinator
  with c threshold_met_same[of s' s e] threshold_met_flag[OF i] show ?thesis by auto
next
  case Remove_worker
  with c have s': "s' = remove_worker e p s" by auto
  have l: "length (discard p (citus_worker_nodes s)) \<le> length (citus_worker_nodes s)"
    by (rule length_discard)
  have n: "discard p (citus_worker_nodes s) \<noteq> [] \<Longrightarrow> citus_worker_nodes s \<noteq> []"
    by (auto simp: discard_def)
  have "threshold_met e s' \<Longrightarrow> threshold_met e s"
    using l n by (auto simp: s' reached_def threshold_met_def)
  with threshold_met_flag[OF i] show ?thesis by (auto simp: s')
qed

lemma dispatch_flag_sets:
  assumes i: "flag_inv e s" and d: "dispatch e ev s = Some s'"
  shows "init_provision s' = (init_provision s \<or> threshold_met e s')"
  using d
proof (cases rule: dispatch_cases)
  case skipped
  with threshold_met_flag[OF i] show ?thesis by auto
next
  case (handled h r)
  from call_flag_sets[OF i handled(2)] show ?thesis .
qed

lemma held_before_snoc:
  assumes "run e evs init = Some s" and "dispatch e ev s = Some s'"
  shows "held_before P e (evs @ [ev]) \<longleftrightarrow> held_before P e evs \<or> P s'"
proof
  assume "held_before P e (evs @ [ev])"
  then obtain k sk where k: "k \<le> Suc (length evs)" "run e (take k (evs @ [ev])) init = Some sk" "P sk"
    by (auto simp: held_before_def)
  show "held_before P e evs \<or> P s'"
  proof (cases "k \<le> length evs")
    case True
    with k show ?thesis by (auto simp: held_before_def)
  next
    case False
    with k(1) have "k = Suc (length evs)" by simp
    with k(2,3) assms show ?thesis by (simp add: run_append)
  qed
next
  assume "held_before P e evs \<or> P s'"
  then show "held_before P e (evs @ [ev])"
  proof
    assume "held_before P e evs"
    then obtain k sk where "k \<le> length evs" "run e (take k evs) init = Some sk" "P sk"
      by (auto simp: held_before_def)
    then show ?thesis unfolding held_before_def
      by (intro exI[of _ k] exI[of _ sk]) simp
  next
    assume "P s'"
    with assms show ?thesis unfolding held_before_def
      by (intro exI[of _ "Suc (length evs)"] exI[of _ s']) (simp add: run_append)
  qed
qed

lemma flag_history_met:
  "run e evs init = Some s \<Longrightarrow> init_provision s = held_before (threshold_met e) e evs"
proof (induction evs arbitrary: s rule: rev_induct)
  case Nil
  then have "s = init" by simp
  then show ?case by (simp add: held_before_def threshold_met_def init_def)
next
  case (snoc ev evs)
  from snoc.prems obtain s0 where s0: "run e evs init = Some s0" "dispatch e ev s0 = Some s"
    by (auto simp: run_append split: option.splits)
  from run_flag_inv[OF s0(1) flag_inv_init] have i: "flag_inv e s0" .
  from dispatch_flag_sets[OF i s0(2)] snoc.IH[OF s0(1)] held_before_snoc[OF s0]
  show ?case by simp
qed

lemma threshold_met_positive:
  "1 \<le> minimum_workers (conf e) \<Longrightarrow> threshold_met e s = reached e s"
  by (auto simp: threshold_met_def reached_def)

lemma threshold_met_zero:
  "minimum_workers (conf e) \<le> 0 \<Longrightarrow> threshold_met e s = (citus_worker_nodes s \<noteq> [])"
  by (auto simp: threshold_met_def reached_def)


lemmas state_defs = state_m1_def state_w1_def state_w2_def state_w2_m1_def zero_m1_def zero_m1_w1_def

subsection \<open>Roles\<close>

lemma get_citus_type_pod_event [simp]: "get_citus_type (object (pod_event t ct n)) = ct"
  by (simp add: get_citus_type_def pod_event_def)

lemma handler_of_added:
  assumes "handler_of e ev = Some h" and "h = Add_master \<or> h = Add_coordinator \<or> h = Add_worker"
  shows "added_handler e (get_citus_type (object ev)) = Some h"
proof -
  from assms have "type ev = ''ADDED''"
    by (auto simp: handler_of_def pod_interactions_def split: if_splits option.splits)
  with assms(1) show ?thesis
    by (simp add: added_handler_def handler_of_def split: if_splits)
qed

lemma role_inv_init: "role_inv e role init"
  by (simp add: role_inv_def init_def)

lemma role_inv_subset:
  assumes "role_inv e role s"
    and "set (citus_master_nodes s') \<subseteq> set (citus_master_nodes s)"
    and "set (citus_coordinator_nodes s') \<subseteq> set (citus_coordinator_nodes s)"
    and "set (citus_worker_nodes s') \<subseteq> set (citus_worker_nodes s)"
  shows "role_inv e role s'"
  using assms unfolding role_inv_def by blast

lemma call_role_inv:
  assumes c: "call e h p s = Some (r, s')" and i: "role_inv e role s"
    and a: "h = Add_master \<or> h = Add_coordinator \<or> h = Add_worker \<longrightarrow> added_handler e (role p) = Some h"
  shows "role_inv e role s'"
proof (cases h)
  case Add_master
  with c have "add_master e p s = Some (r, s')" by simp
  from add_master_frame[OF this] a i Add_master show ?thesis
    unfolding role_inv_def by auto
next
  case Add_coordinator
  with c have "add_coordinator e p s = Some (r, s')" by simp
  from add_coordinator_frame[OF this] a i Add_coordinator show ?thesis
    unfolding role_inv_def by auto
next
  case Add_worker
  with c have w: "add_worker e p s = Some (r, s')" by simp
  from add_worker_frame(1,2,4)[OF w] a i Add_worker show ?thesis
    unfolding role_inv_def by auto
next
  case Remove_master
  with c have "s' = remove_master p s" by auto
  with i show ?thesis by (intro role_inv_subset[OF i]) auto
next
  case Remove_coordinator
  with c have "s' = remove_coordinator p s" by auto
  with i show ?thesis by (intro role_inv_subset[OF i]) auto
next
  case Remove_worker
  with c have "s' = remove_worker e p s" by auto
  with i show ?thesis by (intro role_inv_subset[OF i]) auto
qed

lemma dispatch_role_inv:
  assumes d: "dispatch e ev s = Some s'" and i: "role_inv e role s"
    and f: "get_citus_type (object ev) = role (name (object ev))"
  shows "role_inv e role s'"
  using d
proof (cases rule: dispatch_cases)
  case skipped
  with i show ?thesis by simp
next
  case (handled h r)
  from handler_of_added[OF handled(1)] f
  have "h = Add_master \<or> h = Add_coordinator \<or> h = Add_worker \<longrightarrow>
        added_handler e (role (name (object ev))) = Some h" by auto
  from call_role_inv[OF handled(2) i this] show ?thesis .
qed

lemma run_role_inv:
  "run e evs s = Some s' \<Longrightarrow> role_inv e role s \<Longrightarrow> fixed_roles role evs \<Longrightarrow> role_inv e role s'"
proof (induction evs arbitrary: s)
  case (Cons ev evs)
  from Cons.prems(1) obtain s1 where s1: "dispatch e ev s = Some s1" "run e evs s1 = Some s'"
    by (auto split: option.splits)
  from Cons.prems(3) have f: "get_citus_type (object ev) = role (name (object ev))" "fixed_roles role evs"
    by (simp_all add: fixed_roles_def)
  from Cons.IH[OF s1(2) dispatch_role_inv[OF s1(1) Cons.prems(2) f(1)] f(2)] show ?case .
qed simp

lemma role_inv_disjoint: "role_inv e role s \<Longrightarrow> disjoint_roles s"
  unfolding role_inv_def disjoint_roles_def by fastforce

lemma fixed_roles_take: "fixed_roles role evs \<Longrightarrow> fixed_roles role (take k evs)"
  unfolding fixed_roles_def list_all_iff by (auto dest: in_set_takeD)

subsection \<open>The effects of a replay\<close>

text \<open>The add-node queries of a replay.\<close>
lemma replay_queries:
  assumes "replay e ws s = Some (r, s')"
  shows "\<exists>new. trace s' = trace s @ new \<and>
     (r = Returned \<longrightarrow>
        filter is_add_node new =
          concat (map (add_node_queries e (citus_master_nodes s) (citus_coordinator_nodes s)) ws)) \<and>
     (r = ReadinessError \<longrightarrow>
        (\<exists>ws1 w ws2 s2. ws = ws1 @ w # ws2 \<and>
           check_pod_readiness e w s2 = Some (ReadinessError, s') \<and>
           filter is_add_node new =
             concat (map (add_node_queries e (citus_master_nodes s) (citus_coordinator_nodes s)) ws1)))"
  using assms
proof (induction ws arbitrary: s)
  case Nil
  then show ?case by simp
next
  case (Cons w ws)
  let ?Q = "add_node_queries e (citus_master_nodes s) (citus_coordinator_nodes s)"
  show ?case
  proof (cases "add_worker e w s")
    case None
    with Cons.prems show ?thesis by simp
  next
    case (Some y)
    obtain r1 s1 where y: "y = (r1, s1)" by (cases y)
    from Some y have a: "add_worker e w s = Some (r1, s1)" by simp
    from add_worker_effects[OF a] obtain new1 where n1: "trace s1 = trace s @ new1"
      "filter is_add_node new1 = (if r1 = Returned then ?Q w else [])"
      by blast
    show ?thesis
    proof (cases r1)
      case ReadinessError
      with a Cons.prems have e: "r = ReadinessError" "s' = s1" by simp_all
      from a ReadinessError have "check_pod_readiness e w s = Some (ReadinessError, s1)"
        by (cases rule: add_worker_cases) simp_all
      with e have "w # ws = [] @ w # ws \<and> check_pod_readiness e w s = Some (ReadinessError, s') \<and>
           filter is_add_node new1 = concat (map ?Q [])"
        using n1(2) ReadinessError by simp
      with e n1(1) show ?thesis by blast
    next
      case Returned
      with a Cons.prems have rp: "replay e ws s1 = Some (r, s')" by simp
      from add_worker_frame(1,2)[OF a]
      have same: "citus_master_nodes s1 = citus_master_nodes s"
        "citus_coordinator_nodes s1 = citus_coordinator_nodes s" by simp_all
      from Cons.IH[OF rp, unfolded same] obtain new2 where n2: "trace s' = trace s1 @ new2"
        "r = Returned \<longrightarrow> filter is_add_node new2 = concat (map ?Q ws)"
        "r = ReadinessError \<longrightarrow>
           (\<exists>ws1 w' ws2 s2. ws = ws1 @ w' # ws2 \<and>
              check_pod_readiness e w' s2 = Some (ReadinessError, s') \<and>
              filter is_add_node new2 = concat (map ?Q ws1))"
        by blast
      have t: "trace s' = trace s @ (new1 @ new2)" using n1(1) n2(1) by simp
      have q1: "filter is_add_node new1 = ?Q w" using n1(2) Returned by simp
      have A: "r = Returned \<longrightarrow> filter is_add_node (new1 @ new2) = concat (map ?Q (w # ws))"
        using q1 n2(2) by simp
      have B: "r = ReadinessError \<longrightarrow>
           (\<exists>ws1 w' ws2 s2. w # ws = ws1 @ w' # ws2 \<and>
              check_pod_readiness e w' s2 = Some (ReadinessError, s') \<and>
              filter is_add_node (new1 @ new2) = concat (map ?Q ws1))"
      proof
        assume "r = ReadinessError"
        with n2(3) obtain ws1 w' ws2 s2 where o: "ws = ws1 @ w' # ws2"
          "check_pod_readiness e w' s2 = Some (ReadinessError, s')"
          "filter is_add_node new2 = concat (map ?Q ws1)" by blast
        then have "w # ws = (w # ws1) @ w' # ws2 \<and>
              check_pod_readiness e w' s2 = Some (ReadinessError, s') \<and>
              filter is_add_node (new1 @ new2) = concat (map ?Q (w # ws1))"
          using q1 by simp
        then show "\<exists>ws1 w' ws2 s2. w # ws = ws1 @ w' # ws2 \<and>
              check_pod_readiness e w' s2 = Some (ReadinessError, s') \<and>
              filter is_add_node (new1 @ new2) = concat (map ?Q ws1)" by blast
      qed
      from t A B show ?thesis by blast
    qed
  qed
qed

text \<open>The provisioning calls of a replay of registered workers, in a state that satisfies
  the invariant of the flag.\<close>
lemma replay_provisions:
  assumes "replay e ws s = Some (r, s')" and "set ws \<subseteq> set (citus_worker_nodes s)"
    and "flag_inv e s"
  shows "\<exists>new. trace s' = trace s @ new \<and>
     ProvisionAllNodes \<notin> set (filter is_provision new) \<and>
     (r = Returned \<longrightarrow>
        filter is_provision new = (if reached e s then map ProvisionWorker ws else []))"
  using assms
proof (induction ws arbitrary: s)
  case Nil
  then show ?case by simp
next
  case (Cons w ws)
  show ?case
  proof (cases "add_worker e w s")
    case None
    with Cons.prems show ?thesis by simp
  next
    case (Some y)
    obtain r1 s1 where y: "y = (r1, s1)" by (cases y)
    from Some y have a: "add_worker e w s = Some (r1, s1)" by simp
    from Cons.prems(2) have w: "w \<in> set (citus_worker_nodes s)" by simp
    then have ne: "citus_worker_nodes s \<noteq> []" by auto
    have p: "provisioning e w (s\<lparr>citus_worker_nodes := set_add w (citus_worker_nodes s)\<rparr>) =
             (if reached e s then [ProvisionWorker w] else [])"
      using w ne Cons.prems(3) by (auto simp: provisioning_def reached_def flag_inv_def)
    from add_worker_effects[OF a] p obtain new1 where n1: "trace s1 = trace s @ new1"
      "filter is_provision new1 =
         (if r1 = Returned then (if reached e s then [ProvisionWorker w] else []) else [])"
      by auto
    note m = add_worker_member[OF a w Cons.prems(3)]
    show ?thesis
    proof (cases r1)
      case ReadinessError
      with a Cons.prems have e: "r = ReadinessError" "s' = s1" by simp_all
      from n1(2) ReadinessError have "filter is_provision new1 = []" by simp
      then have "ProvisionAllNodes \<notin> set (filter is_provision new1)" by (simp only: set_simps empty_iff not_False_eq_True)
      with e n1(1) show ?thesis by blast
    next
      case Returned
      with a Cons.prems have rp: "replay e ws s1 = Some (r, s')" by simp
      have i1: "flag_inv e s1" using add_worker_frame(5)[OF a] Cons.prems(3) by simp
      have w1: "set ws \<subseteq> set (citus_worker_nodes s1)" using Cons.prems(2) m by simp
      have r1: "reached e s1 = reached e s" using m by (simp add: reached_def)
      from Cons.IH[OF rp w1 i1] obtain new2 where n2: "trace s' = trace s1 @ new2"
        "ProvisionAllNodes \<notin> set (filter is_provision new2)"
        "r = Returned \<longrightarrow> filter is_provision new2 = (if reached e s then map ProvisionWorker ws else [])"
        unfolding r1 by blast
      have t: "trace s' = trace s @ (new1 @ new2)" using n1(1) n2(1) by simp
      have "ProvisionAllNodes \<notin> set (filter is_provision new1)"
        unfolding n1(2) using Returned by simp
      with n2(2) have A: "ProvisionAllNodes \<notin> set (filter is_provision (new1 @ new2))"
        by (simp only: filter_append set_append Un_iff) blast
      have B: "r = Returned \<longrightarrow>
          filter is_provision (new1 @ new2) = (if reached e s then map ProvisionWorker (w # ws) else [])"
        using n1(2) n2(3) Returned by auto
      from t A B show ?thesis by blast
    qed
  qed
qed

lemma join_cases:
  assumes "h = Add_master \<or> h = Add_coordinator" and "call e h p s = Some (r, s')"
  obtains
    (raised) "r = ReadinessError" "check_pod_readiness e p s = Some (ReadinessError, s')" "gate_frame s s'"
  | (replayed) s1 where "check_pod_readiness e p s = Some (Returned, s1)" "gate_frame s s1"
      "replay e (citus_worker_nodes s) (joined e h p s1) = Some (r, s')"
proof -
  from assms(1) show ?thesis
  proof
    assume h: "h = Add_master"
    with assms(2) have "add_master e p s = Some (r, s')" by simp
    then show ?thesis
      by (cases rule: add_master_cases) (use h raised replayed in \<open>auto simp: joined_def\<close>)
  next
    assume h: "h = Add_coordinator"
    with assms(2) have "add_coordinator e p s = Some (r, s')" by simp
    then show ?thesis
      by (cases rule: add_coordinator_cases) (use h raised replayed in \<open>auto simp: joined_def\<close>)
  qed
qed

lemma joined_simps [simp]:
  "citus_worker_nodes (joined e h p s) = citus_worker_nodes s"
  "init_provision (joined e h p s) = init_provision s"
  "reached e' (joined e h p s) = reached e' s"
  "flag_inv e' (joined e h p s) = flag_inv e' s"
  by (simp_all add: joined_def)

lemma joined_masters:
  "citus_master_nodes (joined e h p s) =
     (if h = Add_master then set_add p (citus_master_nodes s) else citus_master_nodes s)"
  "h = Add_master \<or> h = Add_coordinator \<Longrightarrow>
   citus_coordinator_nodes (joined e h p s) =
     (if h = Add_coordinator then set_add p (citus_coordinator_nodes s) else citus_coordinator_nodes s)"
  by (auto simp: joined_def)

lemma joined_trace:
  "\<exists>new. trace (joined e h p s) = trace s @ new \<and> filter is_add_node new = [] \<and>
     filter is_provision new = (if reached e s then [provision_of h p] else [])"
  by (simp add: joined_def master_joined_def coordinator_joined_def provision_of_def
      set_coordinator_query_def add_node_query_def)

lemma join_effects:
  assumes h: "h = Add_master \<or> h = Add_coordinator" and c: "call e h p s = Some (r, s')"
    and g: "check_pod_readiness e p s = Some (Returned, s1)"
  shows "citus_master_nodes s' =
           (if h = Add_master then set_add p (citus_master_nodes s) else citus_master_nodes s) \<and>
         citus_coordinator_nodes s' =
           (if h = Add_coordinator then set_add p (citus_coordinator_nodes s)
            else citus_coordinator_nodes s) \<and>
         (\<exists>new. trace s' = trace s @ new \<and>
            (r = Returned \<longrightarrow>
               filter is_add_node new =
                 concat (map (add_node_queries e (citus_master_nodes s') (citus_coordinator_nodes s'))
                   (citus_worker_nodes s))) \<and>
            (r = ReadinessError \<longrightarrow>
               (\<exists>ws1 w ws2 s2. citus_worker_nodes s = ws1 @ w # ws2 \<and>
                  check_pod_readiness e w s2 = Some (ReadinessError, s') \<and>
                  filter is_add_node new =
                    concat (map (add_node_queries e (citus_master_nodes s') (citus_coordinator_nodes s'))
                      ws1))))"
  using h c
proof (cases rule: join_cases)
  case raised
  with g show ?thesis by simp
next
  case (replayed s2)
  with g have s2: "s2 = s1" by simp
  note rp = replayed(3)[unfolded s2]
  note f = replayed(2)[unfolded s2]
  from replay_frame[OF rp]
  have m: "citus_master_nodes s' = citus_master_nodes (joined e h p s1)"
    "citus_coordinator_nodes s' = citus_coordinator_nodes (joined e h p s1)" by simp_all
  from gate_frame_trace[OF f] obtain new0 where n0: "trace s1 = trace s @ new0" "list_all is_poll new0"
    by blast
  from joined_trace[of e h p s1] obtain new1 where n1: "trace (joined e h p s1) = trace s1 @ new1"
    "filter is_add_node new1 = []" by blast
  from replay_queries[OF rp, folded m] obtain new2 where n2: "trace s' = trace (joined e h p s1) @ new2"
    "r = Returned \<longrightarrow> filter is_add_node new2 =
       concat (map (add_node_queries e (citus_master_nodes s') (citus_coordinator_nodes s'))
         (citus_worker_nodes s))"
    "r = ReadinessError \<longrightarrow>
       (\<exists>ws1 w ws2 s2. citus_worker_nodes s = ws1 @ w # ws2 \<and>
          check_pod_readiness e w s2 = Some (ReadinessError, s') \<and>
          filter is_add_node new2 =
            concat (map (add_node_queries e (citus_master_nodes s') (citus_coordinator_nodes s')) ws1))"
    by blast
  have t: "trace s' = trace s @ (new0 @ new1 @ new2)" using n0(1) n1(1) n2(1) by simp
  have q: "filter is_add_node (new0 @ new1 @ new2) = filter is_add_node new2"
    using polls_no_add_node[OF n0(2)] n1(2) by simp
  have M: "citus_master_nodes s' =
           (if h = Add_master then set_add p (citus_master_nodes s) else citus_master_nodes s)"
    using m(1) gate_frameD(2)[OF f] by (simp add: joined_masters)
  have C: "citus_coordinator_nodes s' =
           (if h = Add_coordinator then set_add p (citus_coordinator_nodes s)
            else citus_coordinator_nodes s)"
    using m(2) gate_frameD(4)[OF f] h by (simp add: joined_masters)
  from t n2(2,3) have "\<exists>new. trace s' = trace s @ new \<and>
            (r = Returned \<longrightarrow>
               filter is_add_node new =
                 concat (map (add_node_queries e (citus_master_nodes s') (citus_coordinator_nodes s'))
                   (citus_worker_nodes s))) \<and>
            (r = ReadinessError \<longrightarrow>
               (\<exists>ws1 w ws2 s2. citus_worker_nodes s = ws1 @ w # ws2 \<and>
                  check_pod_readiness e w s2 = Some (ReadinessError, s') \<and>
                  filter is_add_node new =
                    concat (map (add_node_queries e (citus_master_nodes s') (citus_coordinator_nodes s'))
                      ws1)))"
    unfolding q[symmetric] by (intro exI[of _ "new0 @ new1 @ new2"]) simp
  with M C show ?thesis by simp
qed

lemma join_provisions:
  assumes h: "h = Add_master \<or> h = Add_coordinator" and c: "call e h p s = Some (r, s')"
    and i: "flag_inv e s"
  shows "init_provision s' = init_provision s \<and> citus_worker_nodes s' = citus_worker_nodes s \<and>
         (\<exists>new. trace s' = trace s @ new \<and>
            ProvisionAllNodes \<notin> set (filter is_provision new) \<and>
            (r = Returned \<longrightarrow>
               filter is_provision new =
                 (if reached e s then provision_of h p # map ProvisionWorker (citus_worker_nodes s)
                  else [])))"
  using h c
proof (cases rule: join_cases)
  case raised
  from gate_frame_trace[OF raised(3)] obtain new where n: "trace s' = trace s @ new" "list_all is_poll new"
    by blast
  from polls_no_provision[OF n(2)] have "ProvisionAllNodes \<notin> set (filter is_provision new)"
    by (simp only: set_simps empty_iff not_False_eq_True)
  with n(1) raised(1) gate_frameD(1,3)[OF raised(3)] show ?thesis by auto
next
  case (replayed s1)
  note rp = replayed(3)
  note f = replayed(2)
  have i1: "flag_inv e (joined e h p s1)" using i gate_frameD(6)[OF f, of e] by simp
  have w1: "set (citus_worker_nodes s) \<subseteq> set (citus_worker_nodes (joined e h p s1))"
    using gate_frameD(3)[OF f] by simp
  have r1: "reached e (joined e h p s1) = reached e s" using gate_frameD(5)[OF f, of e] by simp
  from replay_members[OF rp w1 i1] gate_frameD(1,3)[OF f]
  have same: "init_provision s' = init_provision s" "citus_worker_nodes s' = citus_worker_nodes s"
    by simp_all
  from gate_frame_trace[OF f] obtain new0 where n0: "trace s1 = trace s @ new0" "list_all is_poll new0"
    by blast
  from joined_trace[of e h p s1] gate_frameD(5)[OF f, of e]
  obtain new1 where n1: "trace (joined e h p s1) = trace s1 @ new1"
    "filter is_provision new1 = (if reached e s then [provision_of h p] else [])" by auto
  from replay_provisions[OF rp w1 i1, unfolded r1]
  obtain new2 where n2: "trace s' = trace (joined e h p s1) @ new2"
    "ProvisionAllNodes \<notin> set (filter is_provision new2)"
    "r = Returned \<longrightarrow> filter is_provision new2 =
       (if reached e s then map ProvisionWorker (citus_worker_nodes s) else [])"
    by blast
  have t: "trace s' = trace s @ (new0 @ new1 @ new2)" using n0(1) n1(1) n2(1) by simp
  have q: "filter is_provision (new0 @ new1 @ new2) =
           (if reached e s then [provision_of h p] else []) @ filter is_provision new2"
    using polls_no_provision[OF n0(2)] n1(2) by simp
  have "ProvisionAllNodes \<notin> set (if reached e s then [provision_of h p] else [])"
    by (simp add: provision_of_def)
  with n2(2) have A: "ProvisionAllNodes \<notin> set (filter is_provision (new0 @ new1 @ new2))"
    unfolding q by (simp only: set_append Un_iff) blast
  have B: "r = Returned \<longrightarrow> filter is_provision (new0 @ new1 @ new2) =
       (if reached e s then provision_of h p # map ProvisionWorker (citus_worker_nodes s) else [])"
    unfolding q using n2(3) by simp
  from t A B same show ?thesis by blast
qed

subsection \<open>Runs in which every gate returns\<close>






lemma name_pod_event [simp]: "name (object (pod_event t ct n)) = n"
  by (simp add: pod_event_def)





subsection \<open>The end of a replay\<close>

lemma replay_append:
  "replay e (ws1 @ ws2) s =
     (case replay e ws1 s of
        None \<Rightarrow> None
      | Some (ReadinessError, s') \<Rightarrow> Some (ReadinessError, s')
      | Some (Returned, s') \<Rightarrow> replay e ws2 s')"
  by (induction ws1 arbitrary: s) (auto split: option.splits outcome.splits)

text \<open>The loop over the workers ends with the first gate that raises.\<close>
lemma replay_aborts:
  assumes "replay e ws1 s = Some (Returned, s2)"
    and "check_pod_readiness e w s2 = Some (ReadinessError, s3)"
  shows "replay e (ws1 @ w # ws2) s = Some (ReadinessError, s3)"
  using assms by (simp add: replay_append add_worker_ReadinessError)

lemma call_join_eq:
  assumes "h = Add_master \<or> h = Add_coordinator"
    and "check_pod_readiness e p s = Some (Returned, s1)"
  shows "call e h p s = replay e (citus_worker_nodes s) (joined e h p s1)"
proof -
  from check_frame[OF assms(2)] have "citus_worker_nodes s1 = citus_worker_nodes s"
    by (rule gate_frameD)
  with assms show ?thesis
    by (auto simp: add_master_eq add_coordinator_eq joined_def)
qed


subsection \<open>Masters and coordinators in a run\<close>

text \<open>A master or coordinator event in a run.\<close>
lemma join_in_run:
  assumes "run e evs init = Some s" and "h = Add_master \<or> h = Add_coordinator"
    and "call e h p s = Some (r, s')"
  shows "init_provision s' = init_provision s \<and>
         ProvisionAllNodes \<notin> set (effects_since s s') \<and>
         (r = Returned \<longrightarrow>
            filter is_provision (effects_since s s') =
              (if reached e s then provision_of h p # map ProvisionWorker (citus_worker_nodes s)
               else []))"
proof -
  from run_flag_inv[OF assms(1) flag_inv_init] have i: "flag_inv e s" .
  from join_provisions[OF assms(2,3) i] obtain new where
    f: "init_provision s' = init_provision s"
    and n: "trace s' = trace s @ new" "ProvisionAllNodes \<notin> set (filter is_provision new)"
      "r = Returned \<longrightarrow> filter is_provision new =
         (if reached e s then provision_of h p # map ProvisionWorker (citus_worker_nodes s) else [])"
    by blast
  from n(1) have e: "effects_since s s' = new" by (rule effects_since_append)
  from n(2) have "ProvisionAllNodes \<notin> set new" by simp
  with f n(3) show ?thesis unfolding e by simp
qed

section \<open>The claims\<close>

text \<open>
  C1, as amended. The gate raises a \<^verbatim>\<open>ReadinessError\<close>, after one call and without a retry,
  exactly when the pod-status API raises an \<^verbatim>\<open>ApiException\<close> (the server answers with an
  error status, pod not found included). It returns when every container is ready. On
  every other failure (the pod is not ready although the API succeeded,
  \<^verbatim>\<open>container_statuses\<close> is \<^verbatim>\<open>None\<close>, or the call raises anything but an \<^verbatim>\<open>ApiException\<close>) it sleeps
  5000 milliseconds and polls again; when every later answer is of that kind it never
  returns, so nothing is surfaced to the caller.
\<close>

theorem C1_gate_policy:
  "(\<forall>status. api_answer e p s = Raises (ApiException status) \<longrightarrow>
       check_pod_readiness e p s = Some (ReadinessError, polled e p s)) \<and>
   (\<forall>readiness. api_answer e p s = Status (Some readiness) \<and> list_all (\<lambda>ready. ready) readiness \<longrightarrow>
       check_pod_readiness e p s = Some (Returned, polled e p s)) \<and>
   (api_answer e p s = Status None \<or>
    (\<exists>readiness. api_answer e p s = Status (Some readiness) \<and> \<not> list_all (\<lambda>ready. ready) readiness) \<or>
    (\<exists>x. api_answer e p s = Raises x \<and> (\<forall>status. x \<noteq> ApiException status)) \<longrightarrow>
       check_pod_readiness e p s = check_pod_readiness e p (emit (Sleep 5000) (polled e p s))) \<and>
   ((\<forall>k. retryable (read_namespaced_pod_status e (polls s + k) p (namespace (conf e)))) \<longrightarrow>
       check_pod_readiness e p s = None)"
  using check_api_exception check_ready check_retry[unfolded retryable_cases] check_never
  by (intro conjI allI impI; (elim conjE)?) (simp_all)

theorem C1_gate_policy_witness:
  "check_pod_readiness env_500 ''w1'' init = Some (ReadinessError, polled env_500 ''w1'' init) \<and>
   check_pod_readiness env_ready ''w1'' init = Some (Returned, polled env_ready ''w1'' init) \<and>
   check_pod_readiness env_late ''w1'' init =
     check_pod_readiness env_late ''w1'' (emit (Sleep 5000) (polled env_late ''w1'' init)) \<and>
   check_pod_readiness env_never ''w1'' init = None"
proof -
  have a: "api_answer env_500 ''w1'' init = Raises (ApiException 500)"
    by (simp add: api_answer_def env_500_def)
  have b: "api_answer env_ready ''w1'' init = Status (Some [True, True]) \<and>
           list_all (\<lambda>ready. ready) [True, True]"
    by (simp add: api_answer_def env_ready_def)
  have c: "api_answer env_late ''w1'' init = Status (Some [True, False]) \<and>
           \<not> list_all (\<lambda>ready. ready) [True, False]"
    by (simp add: api_answer_def env_late_def init_def)
  have d: "\<forall>k. retryable (read_namespaced_pod_status env_never (polls init + k) ''w1''
                 (namespace (conf env_never)))"
    by (simp add: retryable_def env_never_def)
  from C1_gate_policy[of env_500 "''w1''" init] a
  have 1: "check_pod_readiness env_500 ''w1'' init = Some (ReadinessError, polled env_500 ''w1'' init)"
    by blast
  from C1_gate_policy[of env_ready "''w1''" init] b
  have 2: "check_pod_readiness env_ready ''w1'' init = Some (Returned, polled env_ready ''w1'' init)"
    by blast
  from C1_gate_policy[of env_late "''w1''" init] c
  have 3: "check_pod_readiness env_late ''w1'' init =
     check_pod_readiness env_late ''w1'' (emit (Sleep 5000) (polled env_late ''w1'' init))"
    by blast
  from C1_gate_policy[of env_never "''w1''" init] d
  have 4: "check_pod_readiness env_never ''w1'' init = None"
    by blast
  from 1 2 3 4 show ?thesis by simp
qed

text \<open>
  C1 as stated fails: a pod that the API reports as not ready is polled again after 5
  seconds and the gate then returns normally, and an API that answers with HTTP 500 is not
  retried but raised as a \<^verbatim>\<open>ReadinessError\<close> after the first call.
\<close>

theorem C1_counterexample:
  "api_answer env_late ''w1'' init = Status (Some [True, False]) \<and>
   check_pod_readiness env_late ''w1'' init =
     Some (Returned,
       init\<lparr>polls := 2,
            trace := [ReadPodStatus ''w1'' ''citus'', Sleep 5000, ReadPodStatus ''w1'' ''citus'']\<rparr>) \<and>
   api_answer env_500 ''w1'' init = Raises (ApiException 500) \<and>
   check_pod_readiness env_500 ''w1'' init =
     Some (ReadinessError, init\<lparr>polls := 1, trace := [ReadPodStatus ''w1'' ''citus'']\<rparr>)"
  by (simp add: check_pod_readiness_def request_pod_readiness.simps api_answer_def polled_def
      emit_def init_def env_late_def env_500_def example_conf_def)

text \<open>
  C3. When the readiness gate raises a \<^verbatim>\<open>ReadinessError\<close> in \<^verbatim>\<open>add_worker\<close>, the handler raises
  it in the state the gate left: the set of workers and the flag are what they were, and
  between the two states no provisioning call and no query was made.
\<close>

theorem C3_readiness_error_leaves_workers:
  assumes "check_pod_readiness e pod_name s = Some (ReadinessError, s1)"
  shows "add_worker e pod_name s = Some (ReadinessError, s1) \<and>
         citus_worker_nodes s1 = citus_worker_nodes s \<and>
         init_provision s1 = init_provision s \<and>
         filter is_provision (effects_since s s1) = [] \<and>
         filter is_query (effects_since s s1) = []"
proof -
  from check_frame[OF assms] have f: "gate_frame s s1" .
  from gate_frame_trace[OF f] obtain new where n: "trace s1 = trace s @ new" "list_all is_poll new"
    by blast
  from n have "effects_since s s1 = new" by (simp add: effects_since_append)
  with n f assms show ?thesis
    by (simp add: add_worker_ReadinessError gate_frameD polls_no_provision polls_no_query)
qed

theorem C3_witness:
  "check_pod_readiness env_500 ''w1'' init = Some (ReadinessError, polled env_500 ''w1'' init) \<and>
   add_worker env_500 ''w1'' init = Some (ReadinessError, polled env_500 ''w1'' init) \<and>
   citus_worker_nodes (polled env_500 ''w1'' init) = [] \<and>
   filter is_provision (effects_since init (polled env_500 ''w1'' init)) = []"
proof -
  have a: "check_pod_readiness env_500 ''w1'' init = Some (ReadinessError, polled env_500 ''w1'' init)"
    by (rule check_api_exception[of _ _ _ 500]) (simp add: api_answer_def env_500_def)
  from C3_readiness_error_leaves_workers[OF a] a show ?thesis
    by (simp add: init_def)
qed

text \<open>
  C5, as amended. \<^verbatim>\<open>remove_worker\<close> for a name that is not in the set of workers calls no
  readiness gate and returns normally; the flag and the three sets are unchanged; but it
  issues the compound query once for every master in the set of masters, so it issues no
  query only when that set is empty.
\<close>

theorem C5_remove_absent_worker:
  assumes "worker_name \<notin> set (citus_worker_nodes s)"
  shows "call e Remove_worker worker_name s =
     Some (Returned,
       s\<lparr>trace := trace s @
            map (\<lambda>master. ExecuteQuery master (master_service (conf e)) remove_worker_query
                   (worker_params e worker_name))
              (citus_master_nodes s)\<rparr>)"
  using assms by (simp add: remove_worker_def exec_on_masters_eq discard_absent)

theorem C5_witness:
  "''w9'' \<notin> set (citus_worker_nodes state_m1) \<and>
   call env_ready Remove_worker ''w9'' state_m1 =
     Some (Returned,
       state_m1\<lparr>trace := trace state_m1 @
         [ExecuteQuery ''m1'' ''pg-master'' remove_worker_query
            \<lparr>host = ''w9.pg-worker'', port = 5432\<rparr>]\<rparr>)"
proof -
  have a: "''w9'' \<notin> set (citus_worker_nodes state_m1)"
    by (simp add: state_m1_def)
  from C5_remove_absent_worker[OF a, of env_ready] a show ?thesis
    by (simp add: state_m1_def worker_params_def example_defs)
qed

text \<open>
  C5 as stated fails: after the event ADDED for the master \<open>m1\<close>, the event DELETED for the
  worker \<open>w9\<close>, which was never added, issues the compound query against \<open>m1\<close>.
\<close>

theorem C5_counterexample:
  "run env_ready [pod_event ''ADDED'' ''master'' ''m1''] init = Some state_m1 \<and>
   ''w9'' \<notin> set (citus_worker_nodes state_m1) \<and>
   run env_ready [pod_event ''ADDED'' ''master'' ''m1'', pod_event ''DELETED'' ''worker'' ''w9''] init =
     Some (state_m1\<lparr>trace := trace state_m1 @
       [ExecuteQuery ''m1'' ''pg-master'' remove_worker_query
          \<lparr>host = ''w9.pg-worker'', port = 5432\<rparr>]\<rparr>)"
  by (simp add: model_defs example_defs state_m1_def)


text \<open>
  C7. \<^verbatim>\<open>remove_master\<close> returns normally and changes nothing but the set of masters, from
  which it removes the name: the trace (so no query and no provisioning call), the workers,
  the coordinators, the flag and the count of polls are unchanged.
\<close>

theorem C7_remove_master:
  "call e Remove_master pod_name s =
     Some (Returned, s\<lparr>citus_master_nodes := removeAll pod_name (citus_master_nodes s)\<rparr>) \<and>
   trace (remove_master pod_name s) = trace s \<and>
   citus_worker_nodes (remove_master pod_name s) = citus_worker_nodes s \<and>
   citus_coordinator_nodes (remove_master pod_name s) = citus_coordinator_nodes s \<and>
   init_provision (remove_master pod_name s) = init_provision s \<and>
   polls (remove_master pod_name s) = polls s \<and>
   set (citus_master_nodes (remove_master pod_name s)) = set (citus_master_nodes s) - {pod_name}"
  by (auto simp: remove_master_def discard_def)

text \<open>
  C2, as amended. The flag is unset in the initial state and no event of a run unsets it.
  After an event of a run the flag is set exactly when it was set before, or the set of
  workers is not empty and has reached the threshold. So an event sets it exactly when,
  after that event and after no earlier event of the run, the set of workers is not empty
  and has reached the threshold. For a threshold
  of at least one that is the event after which the set has reached the threshold for the
  first time; for a threshold of zero or less it is the event after which the set is not
  empty for the first time.
\<close>

theorem C2_flag:
  assumes "run e evs init = Some s" and "dispatch e ev s = Some s'" and "run e evs' s' = Some s''"
  shows "\<not> init_provision init \<and>
         (init_provision s \<longrightarrow> init_provision s') \<and>
         (init_provision s' \<longrightarrow> init_provision s'') \<and>
         (init_provision s' \<longleftrightarrow>
            init_provision s \<or> citus_worker_nodes s' \<noteq> [] \<and> reached e s') \<and>
         ((\<not> init_provision s \<and> init_provision s') \<longleftrightarrow>
            (citus_worker_nodes s' \<noteq> [] \<and> reached e s' \<and>
             \<not> (\<exists>k\<le>length evs. \<exists>sk. run e (take k evs) init = Some sk \<and>
                    citus_worker_nodes sk \<noteq> [] \<and> reached e sk))) \<and>
         (1 \<le> minimum_workers (conf e) \<longrightarrow>
            ((\<not> init_provision s \<and> init_provision s') \<longleftrightarrow>
               (reached e s' \<and>
                \<not> (\<exists>k\<le>length evs. \<exists>sk. run e (take k evs) init = Some sk \<and> reached e sk)))) \<and>
         (minimum_workers (conf e) \<le> 0 \<longrightarrow>
            ((\<not> init_provision s \<and> init_provision s') \<longleftrightarrow>
               (citus_worker_nodes s' \<noteq> [] \<and>
                \<not> (\<exists>k\<le>length evs. \<exists>sk. run e (take k evs) init = Some sk \<and>
                       citus_worker_nodes sk \<noteq> []))))"
proof -
  from run_flag_inv[OF assms(1) flag_inv_init] have i: "flag_inv e s" .
  have A: "\<not> init_provision init" by (simp add: init_def)
  have B: "init_provision s \<longrightarrow> init_provision s'"
    using dispatch_flag_mono[OF assms(2)] by blast
  have C: "init_provision s' \<longrightarrow> init_provision s''"
    using run_flag_mono[OF assms(3)] by blast
  have S: "init_provision s' \<longleftrightarrow>
            init_provision s \<or> citus_worker_nodes s' \<noteq> [] \<and> reached e s'"
    using dispatch_flag_sets[OF i assms(2)] by (simp add: threshold_met_def)
  have D: "(\<not> init_provision s \<and> init_provision s') \<longleftrightarrow>
      (threshold_met e s' \<and> \<not> held_before (threshold_met e) e evs)"
    using flag_history_met[OF assms(1)] dispatch_flag_sets[OF i assms(2)] by auto
  have D1: "(\<not> init_provision s \<and> init_provision s') \<longleftrightarrow>
            (citus_worker_nodes s' \<noteq> [] \<and> reached e s' \<and>
             \<not> (\<exists>k\<le>length evs. \<exists>sk. run e (take k evs) init = Some sk \<and>
                    citus_worker_nodes sk \<noteq> [] \<and> reached e sk))"
    using D by (simp add: held_before_def threshold_met_def)
  have D2: "1 \<le> minimum_workers (conf e) \<longrightarrow>
            ((\<not> init_provision s \<and> init_provision s') \<longleftrightarrow>
               (reached e s' \<and>
                \<not> (\<exists>k\<le>length evs. \<exists>sk. run e (take k evs) init = Some sk \<and> reached e sk)))"
    using D by (simp add: held_before_def threshold_met_positive)
  have D3: "minimum_workers (conf e) \<le> 0 \<longrightarrow>
            ((\<not> init_provision s \<and> init_provision s') \<longleftrightarrow>
               (citus_worker_nodes s' \<noteq> [] \<and>
                \<not> (\<exists>k\<le>length evs. \<exists>sk. run e (take k evs) init = Some sk \<and>
                       citus_worker_nodes sk \<noteq> [])))"
    using D by (simp add: held_before_def threshold_met_zero)
  from A B C S D1 D2 D3 show ?thesis by blast
qed

theorem C2_flag_witness:
  "run env_ready [pod_event ''ADDED'' ''worker'' ''w1''] init = Some state_w1 \<and>
   dispatch env_ready (pod_event ''ADDED'' ''worker'' ''w2'') state_w1 = Some state_w2 \<and>
   run env_ready [pod_event ''ADDED'' ''master'' ''m1''] state_w2 = Some state_w2_m1 \<and>
   1 \<le> minimum_workers (conf env_ready) \<and>
   \<not> init_provision state_w1 \<and> init_provision state_w2 \<and> init_provision state_w2_m1 \<and>
   reached env_ready state_w2 \<and>
   \<not> (\<exists>k\<le>length [pod_event ''ADDED'' ''worker'' ''w1''].
        \<exists>sk. run env_ready (take k [pod_event ''ADDED'' ''worker'' ''w1'']) init = Some sk \<and>
             reached env_ready sk) \<and>
   run env_zero [pod_event ''ADDED'' ''master'' ''m1''] init = Some zero_m1 \<and>
   dispatch env_zero (pod_event ''ADDED'' ''worker'' ''w1'') zero_m1 = Some zero_m1_w1 \<and>
   minimum_workers (conf env_zero) \<le> 0 \<and>
   \<not> init_provision zero_m1 \<and> init_provision zero_m1_w1 \<and>
   citus_worker_nodes zero_m1_w1 \<noteq> [] \<and>
   \<not> (\<exists>k\<le>length [pod_event ''ADDED'' ''master'' ''m1''].
        \<exists>sk. run env_zero (take k [pod_event ''ADDED'' ''master'' ''m1'']) init = Some sk \<and>
             citus_worker_nodes sk \<noteq> [])"
proof -
  have m: "1 \<le> minimum_workers (conf env_ready)"
    by (simp add: example_defs)
  have a: "run env_ready [pod_event ''ADDED'' ''worker'' ''w1''] init = Some state_w1"
    by (simp add: model_defs example_defs state_defs)
  have b: "dispatch env_ready (pod_event ''ADDED'' ''worker'' ''w2'') state_w1 = Some state_w2"
    by (simp add: model_defs example_defs state_defs)
  have c: "run env_ready [pod_event ''ADDED'' ''master'' ''m1''] state_w2 = Some state_w2_m1"
    by (simp add: model_defs example_defs state_defs)
  have f: "\<not> init_provision state_w1" "init_provision state_w2"
    by (simp_all add: state_defs)
  have z: "minimum_workers (conf env_zero) \<le> 0"
    by (simp add: env_zero_def example_defs)
  have a0: "run env_zero [pod_event ''ADDED'' ''master'' ''m1''] init = Some zero_m1"
    by (simp add: model_defs example_defs state_defs env_zero_def)
  have b0: "dispatch env_zero (pod_event ''ADDED'' ''worker'' ''w1'') zero_m1 = Some zero_m1_w1"
    by (simp add: model_defs example_defs state_defs env_zero_def)
  have c0: "run env_zero [] zero_m1_w1 = Some zero_m1_w1"
    by simp
  have f0: "\<not> init_provision zero_m1" "init_provision zero_m1_w1"
    by (simp_all add: state_defs)
  from C2_flag[OF a b c] m f have 1: "init_provision state_w2_m1 \<and> reached env_ready state_w2 \<and>
   \<not> (\<exists>k\<le>length [pod_event ''ADDED'' ''worker'' ''w1''].
        \<exists>sk. run env_ready (take k [pod_event ''ADDED'' ''worker'' ''w1'']) init = Some sk \<and>
             reached env_ready sk)"
    by blast
  from C2_flag[OF a0 b0 c0] z f0 have 2: "citus_worker_nodes zero_m1_w1 \<noteq> [] \<and>
   \<not> (\<exists>k\<le>length [pod_event ''ADDED'' ''master'' ''m1''].
        \<exists>sk. run env_zero (take k [pod_event ''ADDED'' ''master'' ''m1'']) init = Some sk \<and>
             citus_worker_nodes sk \<noteq> [])"
    by blast
  from 1 2 a b c m f z a0 b0 f0 show ?thesis by blast
qed

text \<open>
  C2 as stated fails for a threshold of zero: the empty set of workers has reached the
  threshold from the start, and \<^verbatim>\<open>add_master\<close> finds it reached and provisions the master
  \<open>m1\<close>, yet the flag is set only by the later event ADDED for the worker \<open>w1\<close>.
\<close>

theorem C2_counterexample:
  "minimum_workers (conf env_zero) = 0 \<and>
   reached env_zero init \<and> \<not> init_provision init \<and>
   run env_zero [pod_event ''ADDED'' ''master'' ''m1''] init = Some zero_m1 \<and>
   reached env_zero zero_m1 \<and> \<not> init_provision zero_m1 \<and>
   ProvisionMaster ''m1'' \<in> set (trace zero_m1) \<and>
   run env_zero [pod_event ''ADDED'' ''master'' ''m1'', pod_event ''ADDED'' ''worker'' ''w1''] init =
     Some zero_m1_w1 \<and>
   init_provision zero_m1_w1"
  by (simp add: model_defs example_defs state_defs env_zero_def reached_def)

text \<open>
  C8. When every event of the stream carries, for the pod it names, the one role that
  pod has, then after any number of events of a run from the initial state no name is in
  two of the three sets.
\<close>

theorem C8_roles_disjoint:
  assumes "list_all (\<lambda>ev. get_citus_type (object ev) = role (name (object ev))) evs"
    and "run e (take k evs) init = Some s"
  shows "set (citus_master_nodes s) \<inter> set (citus_coordinator_nodes s) = {} \<and>
         set (citus_master_nodes s) \<inter> set (citus_worker_nodes s) = {} \<and>
         set (citus_coordinator_nodes s) \<inter> set (citus_worker_nodes s) = {}"
proof -
  from assms(1) have "fixed_roles role evs"
    by (simp add: fixed_roles_def)
  then have "fixed_roles role (take k evs)"
    by (rule fixed_roles_take)
  from role_inv_disjoint[OF run_role_inv[OF assms(2) role_inv_init this]]
  show ?thesis by (simp add: disjoint_roles_def)
qed

theorem C8_witness:
  "run env_ready
     (take 3 [pod_event ''ADDED'' ''worker'' ''w1'', pod_event ''ADDED'' ''master'' ''m1'',
              pod_event ''ADDED'' ''coordinator'' ''c1'', pod_event ''DELETED'' ''worker'' ''w1''])
     init = Some state_w1_m1_c1 \<and>
   set (citus_master_nodes state_w1_m1_c1) \<inter> set (citus_coordinator_nodes state_w1_m1_c1) = {} \<and>
   set (citus_master_nodes state_w1_m1_c1) \<inter> set (citus_worker_nodes state_w1_m1_c1) = {} \<and>
   set (citus_coordinator_nodes state_w1_m1_c1) \<inter> set (citus_worker_nodes state_w1_m1_c1) = {}"
proof -
  have a: "list_all (\<lambda>ev. get_citus_type (object ev) = example_role (name (object ev)))
     [pod_event ''ADDED'' ''worker'' ''w1'', pod_event ''ADDED'' ''master'' ''m1'',
      pod_event ''ADDED'' ''coordinator'' ''c1'', pod_event ''DELETED'' ''worker'' ''w1'']"
    by (simp add: example_role_def pod_event_def get_citus_type_def)
  have b: "run env_ready
     (take 3 [pod_event ''ADDED'' ''worker'' ''w1'', pod_event ''ADDED'' ''master'' ''m1'',
              pod_event ''ADDED'' ''coordinator'' ''c1'', pod_event ''DELETED'' ''worker'' ''w1''])
     init = Some state_w1_m1_c1"
    by (simp add: model_defs example_defs state_w1_m1_c1_def)
  from C8_roles_disjoint[OF a b] b show ?thesis by simp
qed




text \<open>
  C9. The gate of the pod of \<^verbatim>\<open>add_master\<close> (or \<^verbatim>\<open>add_coordinator\<close>) returns; the loop over the
  workers calls \<^verbatim>\<open>add_worker\<close> for the workers \<open>ws1\<close>, which return, and then for the worker
  \<open>w\<close>, whose gate raises a \<^verbatim>\<open>ReadinessError\<close>. Then the handler raises that error in the state
  the gate of \<open>w\<close> left: the pod is in its set; the add-node queries issued are those of
  the workers of \<open>ws1\<close>, so none was issued for \<open>w\<close> and for the workers \<open>ws2\<close> after it; and
  the loop of \<^verbatim>\<open>run\<close> goes on from that state.
\<close>

theorem C9_replay_not_atomic:
  assumes "h = Add_master \<or> h = Add_coordinator"
    and "check_pod_readiness e p s = Some (Returned, s1)"
    and "citus_worker_nodes s = ws1 @ w # ws2"
    and "replay e ws1 (joined e h p s1) = Some (Returned, s2)"
    and "check_pod_readiness e w s2 = Some (ReadinessError, s3)"
  shows "call e h p s = Some (ReadinessError, s3) \<and>
         (h = Add_master \<longrightarrow> p \<in> set (citus_master_nodes s3)) \<and>
         (h = Add_coordinator \<longrightarrow> p \<in> set (citus_coordinator_nodes s3)) \<and>
         filter is_add_node (effects_since s s3) =
           concat (map (add_node_queries e (citus_master_nodes s3) (citus_coordinator_nodes s3)) ws1) \<and>
         (\<forall>ev. handler_of e ev = Some h \<and> name (object ev) = p \<longrightarrow> dispatch e ev s = Some s3)"
proof -
  have c: "call e h p s = Some (ReadinessError, s3)"
    using call_join_eq[OF assms(1,2)] replay_aborts[OF assms(4,5), of ws2] assms(3) by simp
  note f1 = check_frame[OF assms(2)]
  note f3 = check_frame[OF assms(5)]
  from replay_frame[OF assms(4)]
  have m2: "citus_master_nodes s2 = citus_master_nodes (joined e h p s1)"
    "citus_coordinator_nodes s2 = citus_coordinator_nodes (joined e h p s1)" by simp_all
  have m3: "citus_master_nodes s3 = citus_master_nodes (joined e h p s1)"
    "citus_coordinator_nodes s3 = citus_coordinator_nodes (joined e h p s1)"
    using m2 gate_frameD(2,4)[OF f3] by simp_all
  have A: "h = Add_master \<longrightarrow> p \<in> set (citus_master_nodes s3)"
    using m3(1) by (simp add: joined_masters)
  have B: "h = Add_coordinator \<longrightarrow> p \<in> set (citus_coordinator_nodes s3)"
    using m3(2) assms(1) by (simp add: joined_masters)
  from gate_frame_trace[OF f1] obtain new0 where n0: "trace s1 = trace s @ new0" "list_all is_poll new0"
    by blast
  from joined_trace[of e h p s1] obtain new1 where n1: "trace (joined e h p s1) = trace s1 @ new1"
    "filter is_add_node new1 = []" by blast
  from replay_queries[OF assms(4), folded m3] obtain new2 where
    n2: "trace s2 = trace (joined e h p s1) @ new2"
    "filter is_add_node new2 =
       concat (map (add_node_queries e (citus_master_nodes s3) (citus_coordinator_nodes s3)) ws1)"
    by auto
  from gate_frame_trace[OF f3] obtain new3 where n3: "trace s3 = trace s2 @ new3" "list_all is_poll new3"
    by blast
  have t: "trace s3 = trace s @ (new0 @ new1 @ new2 @ new3)"
    using n0(1) n1(1) n2(1) n3(1) by simp
  have "filter is_add_node (new0 @ new1 @ new2 @ new3) = filter is_add_node new2"
    using polls_no_add_node[OF n0(2)] polls_no_add_node[OF n3(2)] n1(2) by simp
  with n2(2) effects_since_append[OF t]
  have C: "filter is_add_node (effects_since s s3) =
           concat (map (add_node_queries e (citus_master_nodes s3) (citus_coordinator_nodes s3)) ws1)"
    by simp
  have D: "\<forall>ev. handler_of e ev = Some h \<and> name (object ev) = p \<longrightarrow> dispatch e ev s = Some s3"
    using c by (simp add: dispatch_eq)
  from c A B C D show ?thesis by blast
qed

theorem C9_witness:
  "check_pod_readiness env_flaky ''m1'' state_w2 = Some (Returned, polled env_flaky ''m1'' state_w2) \<and>
   citus_worker_nodes state_w2 = [''w1''] @ ''w2'' # [] \<and>
   replay env_flaky [''w1''] (joined env_flaky Add_master ''m1'' (polled env_flaky ''m1'' state_w2)) =
     Some (Returned, state_w2_m1_w1) \<and>
   check_pod_readiness env_flaky ''w2'' state_w2_m1_w1 = Some (ReadinessError, state_w2_m1_raised) \<and>
   call env_flaky Add_master ''m1'' state_w2 = Some (ReadinessError, state_w2_m1_raised) \<and>
   ''m1'' \<in> set (citus_master_nodes state_w2_m1_raised) \<and>
   filter is_add_node (effects_since state_w2 state_w2_m1_raised) =
     [ExecuteQuery ''m1'' ''pg-master'' add_node_query \<lparr>host = ''w1.pg-worker'', port = 5432\<rparr>] \<and>
   dispatch env_flaky (pod_event ''ADDED'' ''master'' ''m1'') state_w2 = Some state_w2_m1_raised"
proof -
  have a: "check_pod_readiness env_flaky ''m1'' state_w2 =
             Some (Returned, polled env_flaky ''m1'' state_w2)"
    by (rule check_ready) (simp add: api_answer_def env_flaky_def state_w2_def)
  have b: "citus_worker_nodes state_w2 = [''w1''] @ ''w2'' # []"
    by (simp add: state_w2_def)
  have c: "replay env_flaky [''w1''] (joined env_flaky Add_master ''m1'' (polled env_flaky ''m1'' state_w2)) =
     Some (Returned, state_w2_m1_w1)"
    by (simp add: joined_def master_joined_def reached_def model_defs env_flaky_def example_defs
        state_w2_def state_w2_m1_w1_def)
  have d: "check_pod_readiness env_flaky ''w2'' state_w2_m1_w1 =
      Some (ReadinessError, state_w2_m1_raised)"
    by (simp add: model_defs env_flaky_def example_defs state_w2_m1_w1_def state_w2_m1_raised_def)
  have h: "handler_of env_flaky (pod_event ''ADDED'' ''master'' ''m1'') = Some Add_master \<and>
           name (object (pod_event ''ADDED'' ''master'' ''m1'')) = ''m1''"
    by (simp add: handler_of_def pod_interactions_def pod_event_def get_citus_type_def
        env_flaky_def example_defs)
  have m: "citus_master_nodes state_w2_m1_raised = [''m1'']"
    "citus_coordinator_nodes state_w2_m1_raised = []"
    by (simp_all add: state_w2_m1_raised_def)
  have q: "concat (map (add_node_queries env_flaky [''m1''] []) [''w1'']) =
     [ExecuteQuery ''m1'' ''pg-master'' add_node_query \<lparr>host = ''w1.pg-worker'', port = 5432\<rparr>]"
    by (simp add: add_node_queries_def worker_params_def env_flaky_def example_defs)
  have th0: "Add_master = Add_master \<or> Add_master = Add_coordinator" by simp
  note th = C9_replay_not_atomic[OF th0 a b c d]
  from th have 1: "call env_flaky Add_master ''m1'' state_w2 = Some (ReadinessError, state_w2_m1_raised)"
    by simp
  from th have 2: "''m1'' \<in> set (citus_master_nodes state_w2_m1_raised)"
    by simp
  from th have 3: "filter is_add_node (effects_since state_w2 state_w2_m1_raised) =
     [ExecuteQuery ''m1'' ''pg-master'' add_node_query \<lparr>host = ''w1.pg-worker'', port = 5432\<rparr>]"
    unfolding m q by simp
  from th have "handler_of env_flaky (pod_event ''ADDED'' ''master'' ''m1'') = Some Add_master \<and>
           name (object (pod_event ''ADDED'' ''master'' ''m1'')) = ''m1'' \<longrightarrow>
        dispatch env_flaky (pod_event ''ADDED'' ''master'' ''m1'') state_w2 = Some state_w2_m1_raised"
    by simp
  with h have 4: "dispatch env_flaky (pod_event ''ADDED'' ''master'' ''m1'') state_w2 =
      Some state_w2_m1_raised"
    by (rule rev_mp)
  show ?thesis
    by (intro conjI a b c d 1 2 3 4)
qed

text \<open>
  C10, as amended. In a run from the initial state, an event of a master or a coordinator
  that returns has issued, for every worker of the set, the add-node queries against
  every master and coordinator of the sets it leaves, the ones registered before the event
  included; when the set of workers has reached the threshold it has made the provisioning
  call for its pod and then \<^verbatim>\<open>provision_worker\<close> for every worker, and never
  \<^verbatim>\<open>provision_all_nodes\<close>; and it has left the flag as it was.
\<close>

theorem C10_replay_in_run:
  assumes "run e evs init = Some s" and "h = Add_master \<or> h = Add_coordinator"
    and "call e h p s = Some (Returned, s')"
  shows "filter is_add_node (effects_since s s') =
           concat (map (add_node_queries e (citus_master_nodes s') (citus_coordinator_nodes s'))
             (citus_worker_nodes s)) \<and>
         set (citus_master_nodes s) \<subseteq> set (citus_master_nodes s') \<and>
         set (citus_coordinator_nodes s) \<subseteq> set (citus_coordinator_nodes s') \<and>
         filter is_provision (effects_since s s') =
           (if reached e s then provision_of h p # map ProvisionWorker (citus_worker_nodes s)
            else []) \<and>
         ProvisionAllNodes \<notin> set (effects_since s s') \<and>
         init_provision s' = init_provision s"
proof -
  from assms(2,3) obtain s1 where g: "check_pod_readiness e p s = Some (Returned, s1)"
    by (cases rule: join_cases) simp_all
  from join_effects[OF assms(2,3) g] obtain new where
    m: "citus_master_nodes s' =
           (if h = Add_master then set_add p (citus_master_nodes s) else citus_master_nodes s)"
       "citus_coordinator_nodes s' =
           (if h = Add_coordinator then set_add p (citus_coordinator_nodes s)
            else citus_coordinator_nodes s)"
    and n: "trace s' = trace s @ new"
       "filter is_add_node new =
          concat (map (add_node_queries e (citus_master_nodes s') (citus_coordinator_nodes s'))
            (citus_worker_nodes s))"
    by auto
  from n have q: "filter is_add_node (effects_since s s') =
          concat (map (add_node_queries e (citus_master_nodes s') (citus_coordinator_nodes s'))
            (citus_worker_nodes s))"
    by (simp add: effects_since_append)
  from m have sub: "set (citus_master_nodes s) \<subseteq> set (citus_master_nodes s')"
    "set (citus_coordinator_nodes s) \<subseteq> set (citus_coordinator_nodes s')"
    by auto
  from join_in_run[OF assms] q sub show ?thesis by simp
qed

theorem C10_witness:
  "run env_ready
     [pod_event ''ADDED'' ''worker'' ''w1'', pod_event ''ADDED'' ''worker'' ''w2'',
      pod_event ''ADDED'' ''master'' ''m1''] init = Some state_w2_m1 \<and>
   call env_ready Add_coordinator ''c1'' state_w2_m1 = Some (Returned, state_w2_m1_c1) \<and>
   filter is_add_node (effects_since state_w2_m1 state_w2_m1_c1) =
     [ExecuteQuery ''m1'' ''pg-master'' add_node_query \<lparr>host = ''w1.pg-worker'', port = 5432\<rparr>,
      ExecuteQuery ''c1'' ''pg-coordinator'' add_node_query \<lparr>host = ''w1.pg-worker'', port = 5432\<rparr>,
      ExecuteQuery ''m1'' ''pg-master'' add_node_query \<lparr>host = ''w2.pg-worker'', port = 5432\<rparr>,
      ExecuteQuery ''c1'' ''pg-coordinator'' add_node_query \<lparr>host = ''w2.pg-worker'', port = 5432\<rparr>] \<and>
   filter is_provision (effects_since state_w2_m1 state_w2_m1_c1) =
     [ProvisionCoordinator ''c1'', ProvisionWorker ''w1'', ProvisionWorker ''w2''] \<and>
   init_provision state_w2_m1_c1 = init_provision state_w2_m1"
proof -
  have a: "run env_ready
     [pod_event ''ADDED'' ''worker'' ''w1'', pod_event ''ADDED'' ''worker'' ''w2'',
      pod_event ''ADDED'' ''master'' ''m1''] init = Some state_w2_m1"
    by (simp add: model_defs example_defs state_defs)
  have b: "call env_ready Add_coordinator ''c1'' state_w2_m1 = Some (Returned, state_w2_m1_c1)"
    by (simp add: model_defs example_defs state_defs state_w2_m1_c1_def)
  have c: "reached env_ready state_w2_m1" "citus_worker_nodes state_w2_m1 = [''w1'', ''w2'']"
    "citus_master_nodes state_w2_m1_c1 = [''m1'']" "citus_coordinator_nodes state_w2_m1_c1 = [''c1'']"
    by (simp_all add: reached_def example_defs state_defs state_w2_m1_c1_def)
  have l: "master_service (conf env_ready) = ''pg-master''"
    "coordinator_service (conf env_ready) = ''pg-coordinator''"
    "worker_service (conf env_ready) = ''pg-worker''" "pg_port (conf env_ready) = 5432"
    "get_host_name env_ready = host_of"
    by (simp_all add: example_defs)
  from C10_replay_in_run[OF a _ b] a b c(1) show ?thesis
    unfolding c(2,3,4)
    by (simp add: add_node_queries_def worker_params_def provision_of_def l host_of_def)
qed

text \<open>
  C10 as stated fails in its last part: no event of a master or a coordinator, in any run
  from the initial state, changes the flag or calls \<^verbatim>\<open>provision_all_nodes\<close>. In the run shown
  the flag was set by the event of the worker \<open>w2\<close>, and the event of the master \<open>m1\<close> calls
  \<^verbatim>\<open>provision_worker\<close> for both workers.
\<close>

theorem C10_counterexample:
  "run env_ready [pod_event ''ADDED'' ''worker'' ''w1'', pod_event ''ADDED'' ''worker'' ''w2''] init =
     Some state_w2 \<and>
   init_provision state_w2 \<and>
   call env_ready Add_master ''m1'' state_w2 = Some (Returned, state_w2_m1) \<and>
   filter is_provision (effects_since state_w2 state_w2_m1) =
     [ProvisionMaster ''m1'', ProvisionWorker ''w1'', ProvisionWorker ''w2''] \<and>
   \<not> (\<exists>e evs s h p r s'.
        run e evs init = Some s \<and> (h = Add_master \<or> h = Add_coordinator) \<and>
        call e h p s = Some (r, s') \<and>
        (init_provision s' \<noteq> init_provision s \<or> ProvisionAllNodes \<in> set (effects_since s s')))"
proof -
  have a: "run env_ready [pod_event ''ADDED'' ''worker'' ''w1'', pod_event ''ADDED'' ''worker'' ''w2''] init =
     Some state_w2"
    by (simp add: model_defs example_defs state_defs)
  have b: "call env_ready Add_master ''m1'' state_w2 = Some (Returned, state_w2_m1)"
    by (simp add: model_defs example_defs state_defs)
  have c: "filter is_provision (effects_since state_w2 state_w2_m1) =
     [ProvisionMaster ''m1'', ProvisionWorker ''w1'', ProvisionWorker ''w2'']"
    by (simp add: effects_since_def state_defs)
  have d: "init_provision state_w2" by (simp add: state_defs)
  have n: "\<not> (\<exists>e evs s h p r s'.
        run e evs init = Some s \<and> (h = Add_master \<or> h = Add_coordinator) \<and>
        call e h p s = Some (r, s') \<and>
        (init_provision s' \<noteq> init_provision s \<or> ProvisionAllNodes \<in> set (effects_since s s')))"
    using join_in_run by blast
  from a b c d n show ?thesis by blast
qed

end
